theory Spec2Isabelle
  imports Complex_Main "HOL-Library.AList" "HOL-Library.Sublist"
begin

section \<open>The CSV monitor of \<^verbatim>\<open>Job tracking app/main.py\<close>\<close>

text \<open>
  \<^verbatim>\<open>WatchdogCSVMonitor.process_csv\<close> opens a log file, reads every row with
  \<^verbatim>\<open>csv.DictReader\<close>, tallies the rows beyond the stored per-file row count and adds
  the tally to the cumulative per-printer counters.

  A Python string that the code strips or compares is a list of Unicode code points;
  \<open>py\<close> gives the code points of an ASCII literal. A path is only ever compared with
  other paths and is kept as a byte string, as are the strings the widgets and the
  database merely store.

  A row of \<^verbatim>\<open>csv.DictReader\<close> is a dict from column names to values. A line with fewer
  fields than the header gets the value \<^verbatim>\<open>None\<close> for each missing column, so a value is
  a string or \<^verbatim>\<open>None\<close>.
\<close>

type_synonym pystr = "nat list"

definition py :: "string \<Rightarrow> pystr" where
  "py s = map of_char s"

datatype cell = Str pystr | NoneCell

type_synonym row = "pystr \<rightharpoonup> cell"

datatype error = OSError | AttributeError | TypeError | ZeroDivisionError

text \<open>\<^verbatim>\<open>str.strip()\<close>: drops leading and trailing white space, the code points for
  which \<^verbatim>\<open>str.isspace\<close> holds: the ASCII controls 9 to 13 and 28 to 31, the blank,
  U+0085, U+00A0, U+1680, U+2000 to U+200A, U+2028, U+2029, U+202F, U+205F and
  U+3000.\<close>

definition is_space :: "nat \<Rightarrow> bool" where
  "is_space c = (c \<in> {0x09, 0x0A, 0x0B, 0x0C, 0x0D, 0x1C, 0x1D, 0x1E, 0x1F, 0x20,
                        0x85, 0xA0, 0x1680,
                        0x2000, 0x2001, 0x2002, 0x2003, 0x2004, 0x2005, 0x2006, 0x2007,
                        0x2008, 0x2009, 0x200A,
                        0x2028, 0x2029, 0x202F, 0x205F, 0x3000})"

definition strip :: "pystr \<Rightarrow> pystr" where
  "strip s = rev (dropWhile is_space (rev (dropWhile is_space s)))"

text \<open>\<^verbatim>\<open>row.get(key, default).strip()\<close>: the default is used only when the key is absent;
  a key that is present with the value \<^verbatim>\<open>None\<close> raises \<^verbatim>\<open>AttributeError\<close>.\<close>

definition get_strip :: "row \<Rightarrow> pystr \<Rightarrow> pystr \<Rightarrow> error + pystr" where
  "get_strip row key dflt =
     (case row key of
        None \<Rightarrow> Inr (strip dflt)
      | Some (Str v) \<Rightarrow> Inr (strip v)
      | Some NoneCell \<Rightarrow> Inl AttributeError)"

definition failure_msg_of :: "row \<Rightarrow> error + pystr" where
  "failure_msg_of row = get_strip row (py ''Failure Message'') (py [])"

definition printer_of :: "row \<Rightarrow> error + pystr" where
  "printer_of row = get_strip row (py ''Printer Name'') (py ''Printer_1'')"

text \<open>The inner dicts \<^verbatim>\<open>{"pass": n, "fail": m}\<close> always hold exactly these two keys.\<close>

record counts =
  pass :: int
  fail :: int

definition zero_counts :: counts where
  "zero_counts = \<lparr>pass = 0, fail = 0\<rparr>"

text \<open>The body of the loop over the new rows. \<^verbatim>\<open>new_counts\<close> is a dict in insertion
  order: an association list with distinct keys.\<close>

definition count_row :: "(pystr \<times> counts) list \<Rightarrow> row \<Rightarrow> error + (pystr \<times> counts) list" where
  "count_row new_counts row =
     (case failure_msg_of row of
        Inl e \<Rightarrow> Inl e
      | Inr failure_msg \<Rightarrow>
          (case printer_of row of
             Inl e \<Rightarrow> Inl e
           | Inr printer \<Rightarrow>
               (let new_counts1 =
                      (if map_of new_counts printer = None
                       then AList.update printer zero_counts new_counts
                       else new_counts)
                in Inr (if failure_msg = py ''Pass (Label)''
                        then AList.map_entry printer (\<lambda>c. c\<lparr>pass := pass c + 1\<rparr>) new_counts1
                        else if failure_msg = py ''Fail (Label)''
                        then AList.map_entry printer (\<lambda>c. c\<lparr>fail := fail c + 1\<rparr>) new_counts1
                        else new_counts1))))"

fun count_rows :: "(pystr \<times> counts) list \<Rightarrow> row list \<Rightarrow> error + (pystr \<times> counts) list" where
  "count_rows new_counts [] = Inr new_counts"
| "count_rows new_counts (row # new_rows) =
     (case count_row new_counts row of
        Inl e \<Rightarrow> Inl e
      | Inr new_counts1 \<Rightarrow> count_rows new_counts1 new_rows)"

text \<open>The loop that adds the tally to \<^verbatim>\<open>self.cumulative_counts\<close>.\<close>

fun merge_counts :: "(pystr \<rightharpoonup> counts) \<Rightarrow> (pystr \<times> counts) list \<Rightarrow> (pystr \<rightharpoonup> counts)" where
  "merge_counts cumulative [] = cumulative"
| "merge_counts cumulative ((printer, cs) # rest) =
     (let cumulative1 =
            (if cumulative printer = None then cumulative(printer \<mapsto> zero_counts) else cumulative)
      in merge_counts
           (cumulative1(printer :=
              map_option (\<lambda>c. c\<lparr>pass := pass c + pass cs, fail := fail c + fail cs\<rparr>)
                (cumulative1 printer)))
           rest)"

text \<open>The monitor's state. A row count is a \<^verbatim>\<open>len(...)\<close> or the literal 0, so it is a
  natural number.\<close>

record monitor =
  file_row_counts :: "string \<rightharpoonup> nat"
  cumulative_counts :: "pystr \<rightharpoonup> counts"

definition init_monitor :: monitor where
  "init_monitor = \<lparr>file_row_counts = Map.empty, cumulative_counts = Map.empty\<rparr>"

text \<open>What one call lets the outside see: the error it printed, the snapshot it emitted on
  \<^verbatim>\<open>update_signal\<close>, or nothing.\<close>

datatype outcome = Failed error | Emitted "pystr \<rightharpoonup> counts" | Silent

text \<open>\<^verbatim>\<open>process_csv\<close>. The argument \<open>contents\<close> is what opening and reading the file
  gives at this call: the rows of \<^verbatim>\<open>list(reader)\<close>, or the exception raised by
  \<^verbatim>\<open>open\<close> or the reader. Every exception inside the \<^verbatim>\<open>try\<close> block ends the call
  before the row count is stored and before the cumulative counters are touched.\<close>

definition process_csv :: "monitor \<Rightarrow> string \<Rightarrow> error + row list \<Rightarrow> monitor \<times> outcome" where
  "process_csv self csv_path contents =
     (let self1 =
            (if file_row_counts self csv_path = None
             then self\<lparr>file_row_counts := (file_row_counts self)(csv_path \<mapsto> 0)\<rparr>
             else self)
      in case contents of
           Inl e \<Rightarrow> (self1, Failed e)
         | Inr rows \<Rightarrow>
             (let total_rows = length rows;
                  last_count = (case file_row_counts self1 csv_path of Some n \<Rightarrow> n | None \<Rightarrow> 0);
                  new_rows = drop last_count rows
              in case count_rows [] new_rows of
                   Inl e \<Rightarrow> (self1, Failed e)
                 | Inr new_counts \<Rightarrow>
                     (let self2 = self1\<lparr>file_row_counts :=
                                          (file_row_counts self1)(csv_path \<mapsto> total_rows)\<rparr>;
                          self3 = self2\<lparr>cumulative_counts :=
                                          merge_counts (cumulative_counts self2) new_counts\<rparr>
                      in (self3, if new_counts \<noteq> [] then Emitted (cumulative_counts self3)
                                 else Silent))))"









text \<open>Reading the state: the stored row count of a path (0 before the first call, as the
  first lines of \<^verbatim>\<open>process_csv\<close> store it) and a printer's two counters.\<close>

definition cursor :: "monitor \<Rightarrow> string \<Rightarrow> nat" where
  "cursor self csv_path = (case file_row_counts self csv_path of Some n \<Rightarrow> n | None \<Rightarrow> 0)"

definition pass_of :: "(pystr \<rightharpoonup> counts) \<Rightarrow> pystr \<Rightarrow> int" where
  "pass_of cc printer = (case cc printer of Some c \<Rightarrow> pass c | None \<Rightarrow> 0)"

definition fail_of :: "(pystr \<rightharpoonup> counts) \<Rightarrow> pystr \<Rightarrow> int" where
  "fail_of cc printer = (case cc printer of Some c \<Rightarrow> fail c | None \<Rightarrow> 0)"

text \<open>The events a list of rows holds for a printer: the rows that name the printer and
  whose stripped \<^verbatim>\<open>Failure Message\<close> is the sentinel.\<close>

definition is_event :: "pystr \<Rightarrow> pystr \<Rightarrow> row \<Rightarrow> bool" where
  "is_event sentinel printer row =
     (printer_of row = Inr printer \<and> failure_msg_of row = Inr sentinel)"

definition passes_in :: "pystr \<Rightarrow> row list \<Rightarrow> int" where
  "passes_in printer rows = int (length (filter (is_event (py ''Pass (Label)'') printer) rows))"

definition fails_in :: "pystr \<Rightarrow> row list \<Rightarrow> int" where
  "fails_in printer rows = int (length (filter (is_event (py ''Fail (Label)'') printer) rows))"

text \<open>A row the loop can read: neither of the two columns it strips holds
  \<^verbatim>\<open>None\<close>.\<close>

definition readable :: "row \<Rightarrow> bool" where
  "readable row = (row (py ''Failure Message'') \<noteq> Some NoneCell \<and>
                   row (py ''Printer Name'') \<noteq> Some NoneCell)"


text \<open>The contents of the last successful read of a sequence of calls.\<close>

fun last_contents :: "row list \<Rightarrow> (error + row list) list \<Rightarrow> row list" where
  "last_contents cur [] = cur"
| "last_contents cur (Inl e # later) = last_contents cur later"
| "last_contents cur (Inr rows # later) = last_contents rows later"

fun is_failed :: "outcome \<Rightarrow> bool" where
  "is_failed (Failed e) = True"
| "is_failed (Emitted snapshot) = False"
| "is_failed Silent = False"

section \<open>The roll widget and the job detail widget\<close>

text \<open>
  \<^verbatim>\<open>RollWidget\<close> holds the state machine of one roll. Its attribute \<^verbatim>\<open>state\<close> is one of
  five strings; the two baselines are \<^verbatim>\<open>None\<close> or integers. Of the Qt widgets the model
  keeps what the methods set: the three buttons' enabled flags, the pause button's text,
  the visibility of the notes section and the numbers behind the two count labels. The
  progress bar mirrors \<^verbatim>\<open>current_progress\<close> and is left out. The database is the list
  of rows appended to \<^verbatim>\<open>roll_tracking\<close> (job id, roll number, action, note).
\<close>

datatype roll_state = Idle | Running | Paused | Stopped | Completed

type_synonym db = "(int \<times> int \<times> string \<times> string) list"

definition log_roll_action :: "db \<Rightarrow> int \<Rightarrow> int \<Rightarrow> string \<Rightarrow> string \<Rightarrow> db" where
  "log_roll_action db jid roll_num action note = db @ [(jid, roll_num, action, note)]"

record roll_widget =
  job_id :: int
  roll_number :: int
  labels_goal :: int
  printer_name :: pystr
  current_progress :: int
  state :: roll_state
  baseline_pass :: "int option"
  baseline_fail :: "int option"
  pass_count_label :: int
  fail_count_label :: int
  start_btn_enabled :: bool
  pause_btn_enabled :: bool
  stop_btn_enabled :: bool
  pause_btn_text :: string
  notes_section_visible :: bool

text \<open>\<^verbatim>\<open>RollWidget.__init__\<close> with \<^verbatim>\<open>init_ui\<close>.\<close>

definition new_roll_widget :: "int \<Rightarrow> int \<Rightarrow> int \<Rightarrow> pystr \<Rightarrow> roll_widget" where
  "new_roll_widget jid roll_num goal printer =
     \<lparr>job_id = jid, roll_number = roll_num, labels_goal = goal, printer_name = printer,
      current_progress = 0, state = Idle, baseline_pass = None, baseline_fail = None,
      pass_count_label = 0, fail_count_label = 0,
      start_btn_enabled = True, pause_btn_enabled = True, stop_btn_enabled = True,
      pause_btn_text = ''Pause'', notes_section_visible = False\<rparr>"

definition start_roll :: "roll_widget \<Rightarrow> db \<Rightarrow> roll_widget \<times> db" where
  "start_roll self db =
     (if state self \<noteq> Running
      then (self\<lparr>state := Running, baseline_pass := None, baseline_fail := None,
                 start_btn_enabled := False, pause_btn_text := ''Pause''\<rparr>,
            log_roll_action db (job_id self) (roll_number self) ''start'' [])
      else (self, db))"

definition toggle_pause :: "roll_widget \<Rightarrow> db \<Rightarrow> roll_widget \<times> db" where
  "toggle_pause self db =
     (if state self = Running
      then (self\<lparr>state := Paused, pause_btn_text := ''Unpause'',
                 notes_section_visible := True\<rparr>, db)
      else if state self = Paused
      then (self\<lparr>state := Running, pause_btn_text := ''Pause'',
                 notes_section_visible := False\<rparr>,
            log_roll_action db (job_id self) (roll_number self) ''resume'' [])
      else (self, db))"

definition stop_roll :: "roll_widget \<Rightarrow> db \<Rightarrow> roll_widget \<times> db" where
  "stop_roll self db =
     (if state self = Running \<or> state self = Paused
      then (self\<lparr>state := Stopped, start_btn_enabled := False, pause_btn_enabled := False,
                 stop_btn_enabled := False, notes_section_visible := False\<rparr>,
            log_roll_action db (job_id self) (roll_number self) ''stop'' [])
      else (self, db))"

text \<open>\<^verbatim>\<open>confirm_stop\<close>: \<open>reply\<close> says whether the user answered Yes.\<close>

definition confirm_stop :: "roll_widget \<Rightarrow> bool \<Rightarrow> db \<Rightarrow> roll_widget \<times> db" where
  "confirm_stop self reply db = (if reply then stop_roll self db else (self, db))"

text \<open>\<^verbatim>\<open>cumulative_data.get(key, 0)\<close> on a dict of integers.\<close>

definition dict_get :: "(string \<rightharpoonup> int) \<Rightarrow> string \<Rightarrow> int \<Rightarrow> int" where
  "dict_get d key dflt = (case d key of None \<Rightarrow> dflt | Some v \<Rightarrow> v)"

text \<open>\<^verbatim>\<open>update_progress\<close>. Subtracting a baseline that is \<^verbatim>\<open>None\<close> raises
  \<^verbatim>\<open>TypeError\<close>, before anything is assigned.\<close>

definition update_progress ::
  "roll_widget \<Rightarrow> (string \<rightharpoonup> int) \<Rightarrow> db \<Rightarrow> error + roll_widget \<times> db" where
  "update_progress self cumulative_data db =
     (if state self \<noteq> Running then Inr (self, db)
      else case baseline_pass self of
        None \<Rightarrow>
          Inr (self\<lparr>baseline_pass := Some (dict_get cumulative_data ''pass'' 0),
                    baseline_fail := Some (dict_get cumulative_data ''fail'' 0)\<rparr>, db)
      | Some bp \<Rightarrow>
          (case baseline_fail self of
             None \<Rightarrow> Inl TypeError
           | Some bf \<Rightarrow>
               (let delta_pass = dict_get cumulative_data ''pass'' 0 - bp;
                    delta_fail = dict_get cumulative_data ''fail'' 0 - bf;
                    self1 = self\<lparr>current_progress := min delta_pass (labels_goal self),
                                 pass_count_label := delta_pass,
                                 fail_count_label := delta_fail\<rparr>
                in if current_progress self1 \<ge> labels_goal self1
                   then Inr (self1\<lparr>state := Completed, start_btn_enabled := False,
                                   pause_btn_enabled := False, stop_btn_enabled := False,
                                   notes_section_visible := False\<rparr>,
                             log_roll_action db (job_id self1) (roll_number self1)
                               ''completed'' ''Roll complete'')
                   else Inr (self1, db))))"

text \<open>A sequence of \<^verbatim>\<open>update_progress\<close> calls on one roll.\<close>

fun update_all ::
  "roll_widget \<Rightarrow> (string \<rightharpoonup> int) list \<Rightarrow> db \<Rightarrow> error + roll_widget \<times> db" where
  "update_all self [] db = Inr (self, db)"
| "update_all self (cumulative_data # later) db =
     (case update_progress self cumulative_data db of
        Inl e \<Rightarrow> Inl e
      | Inr (self1, db1) \<Rightarrow> update_all self1 later db1)"

text \<open>What the user and the monitor can do to a roll widget. The three methods are
  connected to the buttons' \<^verbatim>\<open>clicked\<close> signals, and Qt delivers no click of a disabled
  button.\<close>

datatype roll_event = ClickStart | ClickPause | ClickStop bool | Update "string \<rightharpoonup> int"

fun roll_step :: "roll_widget \<Rightarrow> db \<Rightarrow> roll_event \<Rightarrow> error + roll_widget \<times> db" where
  "roll_step self db ClickStart =
     Inr (if start_btn_enabled self then start_roll self db else (self, db))"
| "roll_step self db ClickPause =
     Inr (if pause_btn_enabled self then toggle_pause self db else (self, db))"
| "roll_step self db (ClickStop reply) =
     Inr (if stop_btn_enabled self then confirm_stop self reply db else (self, db))"
| "roll_step self db (Update cumulative_data) = update_progress self cumulative_data db"

fun roll_run :: "roll_widget \<Rightarrow> db \<Rightarrow> roll_event list \<Rightarrow> error + roll_widget \<times> db" where
  "roll_run self db [] = Inr (self, db)"
| "roll_run self db (ev # later) =
     (case roll_step self db ev of
        Inl e \<Rightarrow> Inl e
      | Inr (self1, db1) \<Rightarrow> roll_run self1 db1 later)"

text \<open>A job is the tuple read from the \<^verbatim>\<open>jobs\<close> table.\<close>

record job =
  jid :: int
  customer :: string
  job_ticket :: string
  inlay_type :: string
  quantity :: int
  labels_per_roll :: int
  job_printer_name :: pystr
  created_at :: string

record job_detail =
  the_job :: job
  roll_widgets :: "roll_widget list"

text \<open>\<^verbatim>\<open>math.ceil(quantity / labels_per_roll)\<close>. The quotient is taken exactly; Python
  takes it in double precision, which gives the same ceiling for the quantities (up to
  100000) and roll sizes (up to 10000) the job forms allow.\<close>

definition total_rolls_of :: "int \<Rightarrow> int \<Rightarrow> error + int" where
  "total_rolls_of q l =
     (if l = 0 then Inl ZeroDivisionError else Inr \<lceil>real_of_int q / real_of_int l\<rceil>)"

text \<open>\<^verbatim>\<open>JobDetailWidget.__init__\<close> with \<^verbatim>\<open>init_ui\<close>: one roll widget for each number in
  \<^verbatim>\<open>range(1, total_rolls + 1)\<close>, each with the goal \<^verbatim>\<open>job[5]\<close>.\<close>

definition new_job_detail :: "job \<Rightarrow> error + job_detail" where
  "new_job_detail j =
     (case total_rolls_of (quantity j) (labels_per_roll j) of
        Inl e \<Rightarrow> Inl e
      | Inr total_rolls \<Rightarrow>
          Inr \<lparr>the_job = j,
               roll_widgets =
                 map (\<lambda>roll_num. new_roll_widget (jid j) roll_num (labels_per_roll j)
                                   (job_printer_name j))
                     [1..total_rolls]\<rparr>)"

text \<open>The dict the monitor holds for one printer, as \<^verbatim>\<open>update_progress\<close> receives it.\<close>

definition counts_dict :: "counts \<Rightarrow> (string \<rightharpoonup> int)" where
  "counts_dict c = [''pass'' \<mapsto> pass c, ''fail'' \<mapsto> fail c]"

text \<open>The loop of \<^verbatim>\<open>update_rolls\<close>: the first running roll gets the update.\<close>

fun update_first_running ::
  "roll_widget list \<Rightarrow> (string \<rightharpoonup> int) \<Rightarrow> db \<Rightarrow> error + roll_widget list \<times> db" where
  "update_first_running [] cumulative db = Inr ([], db)"
| "update_first_running (roll # rolls) cumulative db =
     (if state roll = Running
      then (case update_progress roll cumulative db of
              Inl e \<Rightarrow> Inl e
            | Inr (roll1, db1) \<Rightarrow> Inr (roll1 # rolls, db1))
      else (case update_first_running rolls cumulative db of
              Inl e \<Rightarrow> Inl e
            | Inr (rolls1, db1) \<Rightarrow> Inr (roll # rolls1, db1)))"

definition update_rolls ::
  "job_detail \<Rightarrow> (pystr \<rightharpoonup> counts) \<Rightarrow> db \<Rightarrow> error + job_detail \<times> db" where
  "update_rolls self update_data db =
     (case update_data (job_printer_name (the_job self)) of
        None \<Rightarrow> Inr (self, db)
      | Some cumulative \<Rightarrow>
          (case update_first_running (roll_widgets self) (counts_dict cumulative) db of
             Inl e \<Rightarrow> Inl e
           | Inr (rolls1, db1) \<Rightarrow> Inr (self\<lparr>roll_widgets := rolls1\<rparr>, db1)))"

text \<open>What holds of a roll widget however it was clicked and updated: the Start button
  is enabled only while the roll is idle, and the two baselines are set together.\<close>

definition roll_inv :: "roll_widget \<Rightarrow> bool" where
  "roll_inv r = ((start_btn_enabled r \<longrightarrow> state r = Idle) \<and>
                 (baseline_pass r = None \<longleftrightarrow> baseline_fail r = None))"

section \<open>Example data\<close>

text \<open>A log row with both columns filled with ASCII text, a job as the form stores it,
  and a snapshot of one printer's counters.\<close>

definition log_row :: "string \<Rightarrow> string \<Rightarrow> row" where
  "log_row msg printer =
     [py ''Failure Message'' \<mapsto> Str (py msg), py ''Printer Name'' \<mapsto> Str (py printer)]"

definition example_job :: "int \<Rightarrow> int \<Rightarrow> job" where
  "example_job q l =
     \<lparr>jid = 1, customer = ''ACME'', job_ticket = ''T-1'', inlay_type = ''RFID'',
      quantity = q, labels_per_roll = l, job_printer_name = py ''Printer_1'',
      created_at = ''2025-01-01T00:00:00''\<rparr>"

definition snapshot :: "int \<Rightarrow> int \<Rightarrow> (string \<rightharpoonup> int)" where
  "snapshot p f = [''pass'' \<mapsto> p, ''fail'' \<mapsto> f]"

text \<open>Scenarios B and C of the specification: three rows for printer P1 (pass, fail,
  pass), and the same file after two more rows (fail, pass) were appended.\<close>

definition scenario_b :: "row list" where
  "scenario_b = [log_row ''Pass (Label)'' ''P1'', log_row ''Fail (Label)'' ''P1'',
                 log_row ''Pass (Label)'' ''P1'']"


text \<open>A row of a line that ends after its first field, so that its second column is
  \<^verbatim>\<open>None\<close>; the monitor after it has read scenario B; three rows that are neither
  pass nor fail, and the monitor after it has read them; and the monitor after a first
  call that failed.\<close>

definition pass_row :: row where
  "pass_row = log_row ''Pass (Label)'' ''P1''"

definition short_row :: row where
  "short_row = [py ''Failure Message'' \<mapsto> Str (py ''Pass (Label)''),
                py ''Printer Name'' \<mapsto> NoneCell]"

definition seen_b :: monitor where
  "seen_b = fst (process_csv init_monitor ''log.csv'' (Inr scenario_b))"

definition unclassified_rows :: "row list" where
  "unclassified_rows =
     [log_row ''Void (Label)'' ''P1'', log_row ''pass (label)'' ''Printer_1'', log_row [] []]"

definition seen_unclassified :: monitor where
  "seen_unclassified =
     \<lparr>file_row_counts = [''log.csv'' \<mapsto> 3],
      cumulative_counts = [py ''P1'' \<mapsto> zero_counts, py ''Printer_1'' \<mapsto> zero_counts,
                           [] \<mapsto> zero_counts]\<rparr>"

text \<open>A fail row for P1 whose message is padded with a no-break space in front and a
  blank behind; a pass row whose printer name is a blank, a no-break space and an
  ideographic space; and the row of a line that holds only two blanks under the header
  \<^verbatim>\<open>Printer Name,Failure Message\<close>.\<close>

definition padded_fail_row :: row where
  "padded_fail_row = [py ''Failure Message'' \<mapsto> Str (0xA0 # py ''Fail (Label) ''),
                      py ''Printer Name'' \<mapsto> Str (py ''P1'')]"

definition blank_printer_row :: row where
  "blank_printer_row = [py ''Failure Message'' \<mapsto> Str (py ''Pass (Label)''),
                        py ''Printer Name'' \<mapsto> Str [0x20, 0xA0, 0x3000]]"

definition blank_short_row :: row where
  "blank_short_row = [py ''Printer Name'' \<mapsto> Str (py ''  ''),
                      py ''Failure Message'' \<mapsto> NoneCell]"

definition retry_state :: monitor where
  "retry_state = \<lparr>file_row_counts = [''log.csv'' \<mapsto> 0], cumulative_counts = Map.empty\<rparr>"

text \<open>Roll 1 of job 1 with the goal 100: new, after \<^verbatim>\<open>start_roll\<close>, with the baseline
  captured at 2 passes, and after \<^verbatim>\<open>stop_roll\<close>.\<close>

definition fresh_roll :: roll_widget where
  "fresh_roll = new_roll_widget 1 1 100 (py ''Printer_1'')"

definition started_roll :: roll_widget where
  "started_roll = fst (start_roll fresh_roll [])"

definition counting_roll :: roll_widget where
  "counting_roll = started_roll\<lparr>baseline_pass := Some 2, baseline_fail := Some 0\<rparr>"

definition stopped_roll :: roll_widget where
  "stopped_roll = fst (stop_roll started_roll [])"

section \<open>Evaluation\<close>

lemma py_eq_iff: "py a = py b \<longleftrightarrow> a = b"
proof -
  have "inj (of_char :: char \<Rightarrow> nat)"
    by (rule inj_on_inverseI[where g = char_of]) simp
  then show ?thesis unfolding py_def by (simp add: inj_map_eq_map)
qed

lemma py_Nil: "py [] = []"
  by (simp add: py_def)

lemma strip_Nil: "strip [] = []"
  by (simp add: strip_def)

lemma py_eq_Nil: "py a = [] \<longleftrightarrow> a = []" "[] = py a \<longleftrightarrow> a = []"
  by (auto simp: py_def)

lemma strip_py:
  "strip (py s) =
     py (rev (dropWhile (\<lambda>c. is_space (of_char c))
                (rev (dropWhile (\<lambda>c. is_space (of_char c)) s))))"
  by (simp add: strip_def py_def dropWhile_map rev_map comp_def)

lemmas row_eval = count_row_def failure_msg_of_def printer_of_def get_strip_def strip_py
  strip_Nil is_space_def zero_counts_def log_row_def py_eq_iff py_Nil py_eq_Nil

lemmas csv_eval = process_csv_def Let_def init_monitor_def cursor_def pass_of_def fail_of_def
  passes_in_def fails_in_def is_event_def

lemmas roll_eval = new_roll_widget_def start_roll_def toggle_pause_def stop_roll_def
  confirm_stop_def update_progress_def dict_get_def log_roll_action_def snapshot_def Let_def

text \<open>The monitor after scenario B: three rows read, two passes and one fail for P1.\<close>

lemma seen_b_eq:
  "seen_b = \<lparr>file_row_counts = [''log.csv'' \<mapsto> 3],
            cumulative_counts = [(py ''P1'') \<mapsto> \<lparr>pass = 2, fail = 1\<rparr>]\<rparr>"
  by (simp add: seen_b_def scenario_b_def csv_eval row_eval numeral_3_eq_3)

section \<open>Facts about the tally\<close>

lemma pass_of_upd: "pass_of (m(k \<mapsto> c)) q = (if q = k then pass c else pass_of m q)"
  by (simp add: pass_of_def)

lemma fail_of_upd: "fail_of (m(k \<mapsto> c)) q = (if q = k then fail c else fail_of m q)"
  by (simp add: fail_of_def)

lemma pass_of_Nil: "pass_of Map.empty q = 0"
  by (simp add: pass_of_def)

lemma fail_of_Nil: "fail_of Map.empty q = 0"
  by (simp add: fail_of_def)

lemma count_row_cases:
  assumes "count_row nc row = Inr nc'"
  obtains m q where "failure_msg_of row = Inr m" "printer_of row = Inr q"
  using assms by (auto simp: count_row_def split: sum.splits)

lemma count_row_distinct:
  assumes "count_row nc row = Inr nc'" "distinct (map fst nc)"
  shows "distinct (map fst nc')"
  using assms
  by (auto simp: count_row_def Let_def distinct_update distinct_map_entry
           split: sum.splits if_splits)

lemma count_row_nonempty:
  assumes "count_row nc row = Inr nc'"
  shows "nc' \<noteq> []"
proof -
  have a: "map_of xs k \<noteq> None \<Longrightarrow> AList.map_entry k f xs \<noteq> []"
    for xs :: "(pystr \<times> counts) list" and k f
    by (cases xs) auto
  have b: "AList.update k v xs \<noteq> []" for xs :: "(pystr \<times> counts) list" and k v
    by (cases xs) auto
  have c: "map_of (AList.update k v xs) k \<noteq> None" for xs :: "(pystr \<times> counts) list" and k v
    by (simp add: update_conv')
  show ?thesis using assms a b c
    by (auto simp: count_row_def Let_def split: sum.splits if_splits)
qed

lemma count_row_map_of:
  assumes "count_row nc row = Inr nc'" "failure_msg_of row = Inr m" "printer_of row = Inr q"
  shows "map_of nc' = (map_of nc)(q \<mapsto>
           (let c = (case map_of nc q of None \<Rightarrow> zero_counts | Some c \<Rightarrow> c)
            in if m = (py ''Pass (Label)'') then c\<lparr>pass := pass c + 1\<rparr>
               else if m = (py ''Fail (Label)'') then c\<lparr>fail := fail c + 1\<rparr> else c))"
  using assms
  by (auto simp: count_row_def Let_def map_of_map_entry update_conv' fun_eq_iff
           split: option.splits)

lemma count_row_pass:
  assumes "count_row nc row = Inr nc'"
  shows "pass_of (map_of nc') q =
         pass_of (map_of nc) q + (if is_event (py ''Pass (Label)'') q row then 1 else 0)"
proof -
  from assms obtain m p where mp: "failure_msg_of row = Inr m" "printer_of row = Inr p"
    by (rule count_row_cases)
  show ?thesis
    unfolding count_row_map_of[OF assms mp]
    by (auto simp: pass_of_upd is_event_def mp Let_def zero_counts_def pass_of_def py_eq_iff
             split: option.splits)
qed

lemma count_row_fail:
  assumes "count_row nc row = Inr nc'"
  shows "fail_of (map_of nc') q =
         fail_of (map_of nc) q + (if is_event (py ''Fail (Label)'') q row then 1 else 0)"
proof -
  from assms obtain m p where mp: "failure_msg_of row = Inr m" "printer_of row = Inr p"
    by (rule count_row_cases)
  show ?thesis
    unfolding count_row_map_of[OF assms mp]
    by (auto simp: fail_of_upd is_event_def mp Let_def zero_counts_def fail_of_def py_eq_iff
             split: option.splits)
qed

lemma count_row_keys:
  assumes "count_row nc row = Inr nc'" "printer_of row = Inr p"
  shows "fst ` set nc' = insert p (fst ` set nc)"
proof -
  from assms obtain m where m: "failure_msg_of row = Inr m"
    by (auto elim: count_row_cases)
  have "dom (map_of nc') = insert p (dom (map_of nc))"
    unfolding count_row_map_of[OF assms(1) m assms(2)] by simp
  then show ?thesis by (simp add: dom_map_of_conv_image_fst)
qed

lemma count_rows_distinct:
  "count_rows nc rows = Inr nc' \<Longrightarrow> distinct (map fst nc) \<Longrightarrow> distinct (map fst nc')"
  by (induction rows arbitrary: nc) (auto split: sum.splits dest: count_row_distinct)

lemma count_rows_pass:
  "count_rows nc rows = Inr nc' \<Longrightarrow>
   pass_of (map_of nc') q = pass_of (map_of nc) q + passes_in q rows"
proof (induction rows arbitrary: nc)
  case Nil
  then show ?case by (simp add: passes_in_def)
next
  case (Cons row rows)
  then obtain nc1 where 1: "count_row nc row = Inr nc1" and 2: "count_rows nc1 rows = Inr nc'"
    by (auto split: sum.splits)
  show ?case
    using Cons.IH[OF 2] count_row_pass[OF 1, of q] by (simp add: passes_in_def)
qed

lemma count_rows_fail:
  "count_rows nc rows = Inr nc' \<Longrightarrow>
   fail_of (map_of nc') q = fail_of (map_of nc) q + fails_in q rows"
proof (induction rows arbitrary: nc)
  case Nil
  then show ?case by (simp add: fails_in_def)
next
  case (Cons row rows)
  then obtain nc1 where 1: "count_row nc row = Inr nc1" and 2: "count_rows nc1 rows = Inr nc'"
    by (auto split: sum.splits)
  show ?case
    using Cons.IH[OF 2] count_row_fail[OF 1, of q] by (simp add: fails_in_def)
qed

lemma count_rows_empty_iff:
  "count_rows nc rows = Inr nc' \<Longrightarrow> nc' = [] \<longleftrightarrow> nc = [] \<and> rows = []"
proof (induction rows arbitrary: nc)
  case Nil
  then show ?case by auto
next
  case (Cons row rows)
  then obtain nc1 where 1: "count_row nc row = Inr nc1" and 2: "count_rows nc1 rows = Inr nc'"
    by (auto split: sum.splits)
  show ?case using Cons.IH[OF 2] count_row_nonempty[OF 1] by simp
qed

lemma count_rows_keys:
  "count_rows nc rows = Inr nc' \<Longrightarrow>
   fst ` set nc' = fst ` set nc \<union> {p. \<exists>row \<in> set rows. printer_of row = Inr p}"
proof (induction rows arbitrary: nc)
  case Nil
  then show ?case by auto
next
  case (Cons row rows)
  then obtain nc1 where 1: "count_row nc row = Inr nc1" and 2: "count_rows nc1 rows = Inr nc'"
    by (auto split: sum.splits)
  from 1 obtain p where p: "printer_of row = Inr p" by (auto elim: count_row_cases)
  show ?case
    unfolding Cons.IH[OF 2] count_row_keys[OF 1 p] using p by auto
qed

lemma merge_counts_Cons:
  "merge_counts cc ((p, cs) # rest) =
     merge_counts (cc(p \<mapsto> (case cc p of None \<Rightarrow> \<lparr>pass = pass cs, fail = fail cs\<rparr>
                                  | Some c \<Rightarrow> c\<lparr>pass := pass c + pass cs,
                                                fail := fail c + fail cs\<rparr>))) rest"
  by (cases "cc p") (simp_all add: Let_def zero_counts_def)

lemma merge_counts_other:
  "q \<notin> fst ` set nc \<Longrightarrow> merge_counts cc nc q = cc q"
proof (induction nc arbitrary: cc)
  case Nil
  then show ?case by simp
next
  case (Cons a nc)
  obtain p cs where a: "a = (p, cs)" by (cases a)
  from Cons.prems have "q \<noteq> p" "q \<notin> fst ` set nc" by (auto simp: a)
  then show ?case unfolding a merge_counts_Cons by (simp add: Cons.IH)
qed

lemma merge_counts_pass:
  "distinct (map fst nc) \<Longrightarrow>
   pass_of (merge_counts cc nc) q = pass_of cc q + pass_of (map_of nc) q"
proof (induction nc arbitrary: cc)
  case Nil
  then show ?case by (simp add: pass_of_def)
next
  case (Cons a nc)
  obtain p cs where a: "a = (p, cs)" by (cases a)
  from Cons.prems have d: "distinct (map fst nc)" and n: "map_of nc p = None"
    by (auto simp: a map_of_eq_None_iff)
  show ?case unfolding a merge_counts_Cons Cons.IH[OF d]
    by (cases "cc p") (auto simp: pass_of_def n)
qed

lemma merge_counts_fail:
  "distinct (map fst nc) \<Longrightarrow>
   fail_of (merge_counts cc nc) q = fail_of cc q + fail_of (map_of nc) q"
proof (induction nc arbitrary: cc)
  case Nil
  then show ?case by (simp add: fail_of_def)
next
  case (Cons a nc)
  obtain p cs where a: "a = (p, cs)" by (cases a)
  from Cons.prems have d: "distinct (map fst nc)" and n: "map_of nc p = None"
    by (auto simp: a map_of_eq_None_iff)
  show ?case unfolding a merge_counts_Cons Cons.IH[OF d]
    by (cases "cc p") (auto simp: fail_of_def n)
qed

lemma merge_counts_dom:
  "merge_counts cc nc q \<noteq> None \<longleftrightarrow> cc q \<noteq> None \<or> q \<in> fst ` set nc"
proof (induction nc arbitrary: cc)
  case Nil
  then show ?case by simp
next
  case (Cons a nc)
  obtain p cs where a: "a = (p, cs)" by (cases a)
  show ?case unfolding a merge_counts_Cons Cons.IH by auto
qed

section \<open>Facts about one call of \<^verbatim>\<open>process_csv\<close>\<close>

lemma store_cursor:
  "(if file_row_counts s p = None then s\<lparr>file_row_counts := (file_row_counts s)(p \<mapsto> 0)\<rparr> else s)
   = s\<lparr>file_row_counts := (file_row_counts s)(p \<mapsto> cursor s p)\<rparr>"
  by (cases "file_row_counts s p") (simp_all add: cursor_def map_upd_triv)

lemma process_csv_eq:
  "process_csv s p contents =
     (case contents of
        Inl e \<Rightarrow> (s\<lparr>file_row_counts := (file_row_counts s)(p \<mapsto> cursor s p)\<rparr>, Failed e)
      | Inr rows \<Rightarrow>
          (case count_rows [] (drop (cursor s p) rows) of
             Inl e \<Rightarrow> (s\<lparr>file_row_counts := (file_row_counts s)(p \<mapsto> cursor s p)\<rparr>, Failed e)
           | Inr nc \<Rightarrow>
               (s\<lparr>file_row_counts := (file_row_counts s)(p \<mapsto> length rows),
                  cumulative_counts := merge_counts (cumulative_counts s) nc\<rparr>,
                if nc \<noteq> [] then Emitted (merge_counts (cumulative_counts s) nc) else Silent)))"
  unfolding process_csv_def store_cursor
  by (simp add: Let_def cursor_def split: sum.splits)

lemma process_csv_failed:
  assumes "process_csv s p contents = (s', out)" "is_failed out"
  shows "cumulative_counts s' = cumulative_counts s"
    and "file_row_counts s' = (file_row_counts s)(p \<mapsto> cursor s p)"
    and "cursor s' p = cursor s p"
  using assms unfolding process_csv_eq
  by (auto simp: cursor_def split: sum.splits if_splits)

lemma process_csv_ok:
  assumes "process_csv s p (Inr rows) = (s', out)" "\<not> is_failed out"
  shows "file_row_counts s' = (file_row_counts s)(p \<mapsto> length rows)"
    and "cursor s' p = length rows"
    and "pass_of (cumulative_counts s') q =
         pass_of (cumulative_counts s) q + passes_in q (drop (cursor s p) rows)"
    and "fail_of (cumulative_counts s') q =
         fail_of (cumulative_counts s) q + fails_in q (drop (cursor s p) rows)"
    and "out = Silent \<longleftrightarrow> length rows \<le> cursor s p"
proof -
  from assms obtain nc where nc: "count_rows [] (drop (cursor s p) rows) = Inr nc"
    and s': "s' = s\<lparr>file_row_counts := (file_row_counts s)(p \<mapsto> length rows),
                    cumulative_counts := merge_counts (cumulative_counts s) nc\<rparr>"
    and out: "out = (if nc \<noteq> [] then Emitted (merge_counts (cumulative_counts s) nc) else Silent)"
    unfolding process_csv_eq by (auto split: sum.splits)
  have d: "distinct (map fst nc)" using count_rows_distinct[OF nc] by simp
  show "file_row_counts s' = (file_row_counts s)(p \<mapsto> length rows)" by (simp add: s')
  then show "cursor s' p = length rows" by (simp add: cursor_def)
  show "pass_of (cumulative_counts s') q =
        pass_of (cumulative_counts s) q + passes_in q (drop (cursor s p) rows)"
    using count_rows_pass[OF nc, of q] by (simp add: s' merge_counts_pass[OF d] pass_of_Nil)
  show "fail_of (cumulative_counts s') q =
        fail_of (cumulative_counts s) q + fails_in q (drop (cursor s p) rows)"
    using count_rows_fail[OF nc, of q] by (simp add: s' merge_counts_fail[OF d] fail_of_Nil)
  show "out = Silent \<longleftrightarrow> length rows \<le> cursor s p"
    using count_rows_empty_iff[OF nc] by (simp add: out)
qed


lemma process_csv_no_new_rows:
  assumes "length rows \<le> cursor s p"
  shows "process_csv s p (Inr rows) =
         (s\<lparr>file_row_counts := (file_row_counts s)(p \<mapsto> length rows)\<rparr>, Silent)"
  using assms unfolding process_csv_eq by simp

lemma process_csv_repeat:
  assumes "process_csv s p (Inr rows) = (s', out)" "\<not> is_failed out"
  shows "process_csv s' p (Inr rows) = (s', Silent)"
proof -
  have c: "cursor s' p = length rows" and f: "file_row_counts s' p = Some (length rows)"
    using process_csv_ok(1,2)[OF assms] by simp_all
  show ?thesis
    using process_csv_no_new_rows[of rows s' p] c f by (simp add: map_upd_triv)
qed





section \<open>Facts about a sequence of calls on an append-only file\<close>




lemma last_contents_append:
  "last_contents cur (xs @ ys) = last_contents (last_contents cur xs) ys"
  by (induction cur xs rule: last_contents.induct) auto




section \<open>Further facts about one call\<close>

lemma strip_blank:
  assumes "\<forall>c \<in> set v. is_space c"
  shows "strip v = []"
proof -
  have d: "dropWhile is_space v = []" using assms by (induction v) simp_all
  show ?thesis unfolding strip_def d by simp
qed

lemma count_row_ok:
  assumes "failure_msg_of row = Inr m" "printer_of row = Inr q"
  shows "\<exists>nc'. count_row nc row = Inr nc'"
  using assms by (simp add: count_row_def Let_def)

lemma process_csv_untouched:
  assumes "process_csv s p (Inr rows) = (s', out)" "\<not> is_failed out"
    and "\<forall>row \<in> set (drop (cursor s p) rows). printer_of row \<noteq> Inr q"
  shows "cumulative_counts s' q = cumulative_counts s q"
proof -
  from assms obtain nc where nc: "count_rows [] (drop (cursor s p) rows) = Inr nc"
    and s': "cumulative_counts s' = merge_counts (cumulative_counts s) nc"
    unfolding process_csv_eq by (auto split: sum.splits)
  have "q \<notin> fst ` set nc" unfolding count_rows_keys[OF nc] using assms(3) by simp
  then show ?thesis by (simp add: s' merge_counts_other)
qed

lemma process_csv_created:
  assumes "process_csv s p (Inr rows) = (s', out)" "\<not> is_failed out"
    and "row \<in> set (drop (cursor s p) rows)" "printer_of row = Inr q"
  shows "cumulative_counts s' q \<noteq> None"
proof -
  from assms obtain nc where nc: "count_rows [] (drop (cursor s p) rows) = Inr nc"
    and s': "cumulative_counts s' = merge_counts (cumulative_counts s) nc"
    unfolding process_csv_eq by (auto split: sum.splits)
  have "q \<in> fst ` set nc" unfolding count_rows_keys[OF nc] using assms(3,4) by auto
  with merge_counts_dom[of "cumulative_counts s" nc q] show ?thesis unfolding s' by blast
qed

lemma passes_in_none:
  "\<forall>row \<in> set rows. failure_msg_of row \<noteq> Inr (py ''Pass (Label)'') \<Longrightarrow> passes_in q rows = 0"
  by (simp add: passes_in_def is_event_def)

lemma fails_in_none:
  "\<forall>row \<in> set rows. failure_msg_of row \<noteq> Inr (py ''Fail (Label)'') \<Longrightarrow> fails_in q rows = 0"
  by (simp add: fails_in_def is_event_def)

section \<open>Rows the loop can and cannot read\<close>

lemma readable_iff:
  "readable row \<longleftrightarrow> (\<exists>m q. failure_msg_of row = Inr m \<and> printer_of row = Inr q)"
  by (auto simp: readable_def failure_msg_of_def printer_of_def get_strip_def
           split: option.splits cell.splits)

lemma count_row_unreadable:
  assumes "\<not> readable row"
  shows "count_row nc row = Inl AttributeError"
  using assms
  by (auto simp: readable_def count_row_def failure_msg_of_def printer_of_def get_strip_def
           split: option.splits cell.splits sum.splits)

lemma count_row_error:
  "count_row nc row = Inl e \<Longrightarrow> e = AttributeError"
  by (auto simp: count_row_def failure_msg_of_def printer_of_def get_strip_def Let_def
           split: option.splits cell.splits sum.splits)

lemma count_rows_readable:
  "list_all readable rows \<Longrightarrow> \<exists>nc'. count_rows nc rows = Inr nc'"
proof (induction rows arbitrary: nc)
  case Nil
  then show ?case by simp
next
  case (Cons row rows)
  then obtain m q where "failure_msg_of row = Inr m" "printer_of row = Inr q"
    by (auto simp: readable_iff)
  then obtain nc1 where "count_row nc row = Inr nc1" using count_row_ok by blast
  then show ?case using Cons.IH[of nc1] Cons.prems by simp
qed

lemma count_rows_unreadable:
  "\<not> list_all readable rows \<Longrightarrow> count_rows nc rows = Inl AttributeError"
proof (induction rows arbitrary: nc)
  case Nil
  then show ?case by simp
next
  case (Cons row rows)
  show ?case
  proof (cases "readable row")
    case True
    then have "\<not> list_all readable rows" using Cons.prems by simp
    then show ?thesis using Cons.IH by (auto split: sum.splits dest: count_row_error)
  next
    case False
    then show ?thesis by (simp add: count_row_unreadable)
  qed
qed

lemma process_csv_readable:
  assumes "list_all readable (drop (cursor s p) rows)"
  shows "\<not> is_failed (snd (process_csv s p (Inr rows)))"
proof -
  obtain nc where "count_rows [] (drop (cursor s p) rows) = Inr nc"
    using count_rows_readable[OF assms] by blast
  then show ?thesis by (simp add: process_csv_eq)
qed

lemma process_csv_unreadable:
  assumes "\<not> list_all readable (drop (cursor s p) rows)"
  shows "process_csv s p (Inr rows) =
         (s\<lparr>file_row_counts := (file_row_counts s)(p \<mapsto> cursor s p)\<rparr>, Failed AttributeError)"
  by (simp add: process_csv_eq count_rows_unreadable[OF assms])



section \<open>Facts about the roll widget and the job detail widget\<close>

lemma update_progress_not_running:
  "state r \<noteq> Running \<Longrightarrow> update_progress r cum db = Inr (r, db)"
  by (simp add: update_progress_def)

lemma update_progress_first:
  "state r = Running \<Longrightarrow> baseline_pass r = None \<Longrightarrow>
   update_progress r cum db =
     Inr (r\<lparr>baseline_pass := Some (dict_get cum ''pass'' 0),
            baseline_fail := Some (dict_get cum ''fail'' 0)\<rparr>, db)"
  by (simp add: update_progress_def)

lemma toggle_pause_keeps_baseline:
  "baseline_pass (fst (toggle_pause r db)) = baseline_pass r \<and>
   baseline_fail (fst (toggle_pause r db)) = baseline_fail r \<and>
   current_progress (fst (toggle_pause r db)) = current_progress r"
  by (simp add: toggle_pause_def)

lemma update_all_not_running:
  "state r \<noteq> Running \<Longrightarrow> update_all r cums db = Inr (r, db)"
  by (induction cums) (simp_all add: update_progress_not_running)

lemma new_roll_inv: "roll_inv (new_roll_widget i n goal printer)"
  by (simp add: roll_inv_def new_roll_widget_def)

lemma update_progress_inv:
  assumes "roll_inv r" "update_progress r cum db = Inr (r', db')"
  shows "roll_inv r'"
  using assms
  by (auto simp: roll_inv_def update_progress_def Let_def split: if_splits option.splits)

lemma update_progress_total:
  assumes "roll_inv r"
  shows "\<exists>r' db'. update_progress r cum db = Inr (r', db')"
  using assms
  by (auto simp: roll_inv_def update_progress_def Let_def split: if_splits option.splits)

lemma roll_step_inv:
  assumes "roll_inv r" "roll_step r db ev = Inr (r', db')"
  shows "roll_inv r'"
proof (cases ev)
  case ClickStart
  then show ?thesis using assms by (auto simp: roll_inv_def start_roll_def split: if_splits)
next
  case ClickPause
  then show ?thesis using assms by (auto simp: roll_inv_def toggle_pause_def split: if_splits)
next
  case (ClickStop reply)
  then show ?thesis using assms
    by (auto simp: roll_inv_def confirm_stop_def stop_roll_def split: if_splits)
next
  case (Update cum)
  then show ?thesis using assms update_progress_inv by simp
qed

lemma roll_step_total:
  assumes "roll_inv r"
  shows "\<exists>r' db'. roll_step r db ev = Inr (r', db')"
proof (cases ev)
  case (Update cum)
  then show ?thesis using update_progress_total[OF assms] by simp
qed (simp_all add: prod_eq_iff)

lemma roll_run_inv:
  "roll_inv r \<Longrightarrow> roll_run r db evs = Inr (r', db') \<Longrightarrow> roll_inv r'"
proof (induction evs arbitrary: r db)
  case Nil
  then show ?case by simp
next
  case (Cons ev evs)
  from Cons.prems(2) obtain r1 db1 where 1: "roll_step r db ev = Inr (r1, db1)"
    and 2: "roll_run r1 db1 evs = Inr (r', db')"
    by (auto split: sum.splits)
  show ?case using Cons.IH[OF roll_step_inv[OF Cons.prems(1) 1] 2] .
qed

lemma roll_run_total:
  "roll_inv r \<Longrightarrow> \<exists>r' db'. roll_run r db evs = Inr (r', db')"
proof (induction evs arbitrary: r db)
  case Nil
  then show ?case by simp
next
  case (Cons ev evs)
  obtain r1 db1 where 1: "roll_step r db ev = Inr (r1, db1)"
    using roll_step_total[OF Cons.prems] by blast
  show ?case using Cons.IH[OF roll_step_inv[OF Cons.prems 1]] by (simp add: 1)
qed

lemma terminal_step:
  assumes "roll_inv r" "state r = Stopped \<or> state r = Completed"
  shows "roll_step r db ev = Inr (r, db)"
proof (cases ev)
  case ClickStart
  then show ?thesis using assms by (auto simp: roll_inv_def)
next
  case ClickPause
  then show ?thesis using assms by (auto simp: toggle_pause_def)
next
  case (ClickStop reply)
  then show ?thesis using assms by (auto simp: confirm_stop_def stop_roll_def)
next
  case (Update cum)
  then show ?thesis using assms by (auto simp: update_progress_def)
qed

lemma terminal_run:
  assumes "roll_inv r" "state r = Stopped \<or> state r = Completed"
  shows "roll_run r db evs = Inr (r, db)"
  by (induction evs) (simp_all add: terminal_step[OF assms])

lemma total_rolls_of_div:
  "l \<noteq> 0 \<Longrightarrow> total_rolls_of q l = Inr (- ((- q) div l))"
proof -
  have "\<lceil>real_of_int q / real_of_int l\<rceil> = - \<lfloor>real_of_int (- q) / real_of_int l\<rfloor>"
    by (simp add: ceiling_def)
  also have "\<dots> = - ((- q) div l)"
    by (simp only: floor_divide_of_int_eq)
  finally show "l \<noteq> 0 \<Longrightarrow> total_rolls_of q l = Inr (- ((- q) div l))"
    by (simp add: total_rolls_of_def)
qed

lemma new_job_detail_rolls:
  assumes "labels_per_roll j \<noteq> 0"
  shows "new_job_detail j =
         Inr \<lparr>the_job = j,
              roll_widgets = map (\<lambda>roll_num. new_roll_widget (jid j) roll_num (labels_per_roll j)
                                     (job_printer_name j))
                   [1..\<lceil>real_of_int (quantity j) / real_of_int (labels_per_roll j)\<rceil>]\<rparr>"
  using assms by (simp add: new_job_detail_def total_rolls_of_def)

section \<open>The claims about the CSV monitor\<close>




text \<open>
  Claim C4, as amended. When \<^verbatim>\<open>process_csv\<close> reads fewer rows than the stored row count,
  the slice of new rows is empty: the call reads no row, changes no counter, emits
  nothing, and lowers the stored row count to the number of rows the file has now. It
  does not start again from row 0.
\<close>

theorem process_csv_shrunken_file:
  assumes "length rows < cursor self csv_path"
  shows "process_csv self csv_path (Inr rows) =
         (self\<lparr>file_row_counts := (file_row_counts self)(csv_path \<mapsto> length rows)\<rparr>, Silent)"
  using assms by (simp add: process_csv_no_new_rows)

theorem process_csv_shrunken_file_witness:
  "length [log_row ''Pass (Label)'' ''P1''] < cursor seen_b ''log.csv''
   \<and> process_csv seen_b ''log.csv'' (Inr [log_row ''Pass (Label)'' ''P1'']) =
       (seen_b\<lparr>file_row_counts := (file_row_counts seen_b)(''log.csv'' \<mapsto> 1)\<rparr>, Silent)"
proof -
  have h: "length [log_row ''Pass (Label)'' ''P1''] < cursor seen_b ''log.csv''"
    by (simp add: seen_b_eq cursor_def)
  show ?thesis using h process_csv_shrunken_file[OF h] by simp
qed

text \<open>
  Claim C4 as stated fails: after scenario B the stored row count is 3 and P1 has 2
  passes. The file is replaced by one with a single pass row for P1. Reprocessing from the
  start would count that row; the call counts nothing and stores the row count 1.
\<close>

theorem shrunken_file_not_reprocessed:
  "cursor seen_b ''log.csv'' = 3
   \<and> pass_of (cumulative_counts seen_b) (py ''P1'') = 2
   \<and> passes_in (py ''P1'') [log_row ''Pass (Label)'' ''P1''] = 1
   \<and> snd (process_csv seen_b ''log.csv'' (Inr [log_row ''Pass (Label)'' ''P1''])) = Silent
   \<and> pass_of (cumulative_counts
         (fst (process_csv seen_b ''log.csv'' (Inr [log_row ''Pass (Label)'' ''P1''])))) (py ''P1'') = 2
   \<and> cursor (fst (process_csv seen_b ''log.csv'' (Inr [log_row ''Pass (Label)'' ''P1'']))) ''log.csv'' = 1"
  by (simp add: seen_b_eq csv_eval row_eval)

text \<open>
  Claim C7, as amended. The outcome of a row is read from its column
  \<^verbatim>\<open>Failure Message\<close> (the empty string when the column is absent), stripped of
  surrounding white space, and compared with \<^verbatim>\<open>Pass (Label)\<close> and \<^verbatim>\<open>Fail (Label)\<close>.
  In a pass whose new rows all hold a string or nothing in \<^verbatim>\<open>Failure Message\<close> and
  in \<^verbatim>\<open>Printer Name\<close>, every new row whose stripped value is one of the two adds
  exactly 1 to that counter of its printer and every other new row adds to neither: each
  counter of each printer grows by the number of new rows of that printer with that
  value. All new rows are consumed (the stored row count becomes the number of rows of
  the file). When a new row holds \<^verbatim>\<open>None\<close> in one of the two columns the pass raises
  \<^verbatim>\<open>AttributeError\<close>: no counter changes and no row is consumed.
\<close>

theorem rows_classified_by_failure_message:
  "failure_msg_of row =
     (case row (py ''Failure Message'') of None \<Rightarrow> Inr [] | Some (Str v) \<Rightarrow> Inr (strip v)
      | Some NoneCell \<Rightarrow> Inl AttributeError)
   \<and> (list_all readable (drop (cursor self csv_path) rows) \<longrightarrow>
        \<not> is_failed (snd (process_csv self csv_path (Inr rows)))
      \<and> file_row_counts (fst (process_csv self csv_path (Inr rows))) csv_path = Some (length rows)
      \<and> pass_of (cumulative_counts (fst (process_csv self csv_path (Inr rows)))) printer =
          pass_of (cumulative_counts self) printer
          + int (length (filter (\<lambda>new. printer_of new = Inr printer \<and>
                                        failure_msg_of new = Inr (py ''Pass (Label)''))
                           (drop (cursor self csv_path) rows)))
      \<and> fail_of (cumulative_counts (fst (process_csv self csv_path (Inr rows)))) printer =
          fail_of (cumulative_counts self) printer
          + int (length (filter (\<lambda>new. printer_of new = Inr printer \<and>
                                        failure_msg_of new = Inr (py ''Fail (Label)''))
                           (drop (cursor self csv_path) rows))))
   \<and> (\<not> list_all readable (drop (cursor self csv_path) rows) \<longrightarrow>
        snd (process_csv self csv_path (Inr rows)) = Failed AttributeError
      \<and> cumulative_counts (fst (process_csv self csv_path (Inr rows))) = cumulative_counts self
      \<and> cursor (fst (process_csv self csv_path (Inr rows))) csv_path = cursor self csv_path)"
proof -
  have a: "failure_msg_of row =
     (case row (py ''Failure Message'') of None \<Rightarrow> Inr [] | Some (Str v) \<Rightarrow> Inr (strip v)
      | Some NoneCell \<Rightarrow> Inl AttributeError)"
    by (simp add: failure_msg_of_def get_strip_def strip_def py_Nil
             split: option.splits cell.splits)
  have b: "\<not> is_failed (snd (process_csv self csv_path (Inr rows)))
      \<and> file_row_counts (fst (process_csv self csv_path (Inr rows))) csv_path = Some (length rows)
      \<and> pass_of (cumulative_counts (fst (process_csv self csv_path (Inr rows)))) printer =
          pass_of (cumulative_counts self) printer
          + int (length (filter (\<lambda>new. printer_of new = Inr printer \<and>
                                        failure_msg_of new = Inr (py ''Pass (Label)''))
                           (drop (cursor self csv_path) rows)))
      \<and> fail_of (cumulative_counts (fst (process_csv self csv_path (Inr rows)))) printer =
          fail_of (cumulative_counts self) printer
          + int (length (filter (\<lambda>new. printer_of new = Inr printer \<and>
                                        failure_msg_of new = Inr (py ''Fail (Label)''))
                           (drop (cursor self csv_path) rows)))"
    if r: "list_all readable (drop (cursor self csv_path) rows)"
  proof -
    obtain s' out where s': "process_csv self csv_path (Inr rows) = (s', out)"
      by (cases "process_csv self csv_path (Inr rows)")
    have out: "\<not> is_failed out" using process_csv_readable[OF r] by (simp add: s')
    show ?thesis
      using out process_csv_ok(1)[OF s' out] process_csv_ok(3)[OF s' out, of printer]
        process_csv_ok(4)[OF s' out, of printer]
      by (simp add: s' passes_in_def fails_in_def is_event_def[abs_def])
  qed
  have c: "snd (process_csv self csv_path (Inr rows)) = Failed AttributeError
      \<and> cumulative_counts (fst (process_csv self csv_path (Inr rows))) = cumulative_counts self
      \<and> cursor (fst (process_csv self csv_path (Inr rows))) csv_path = cursor self csv_path"
    if "\<not> list_all readable (drop (cursor self csv_path) rows)"
    by (simp add: process_csv_unreadable[OF that] cursor_def)
  show ?thesis using a b c by blast
qed

theorem rows_classified_by_failure_message_witness:
  "list_all readable (drop (cursor seen_b ''log.csv'') (scenario_b @ [padded_fail_row, pass_row]))
   \<and> padded_fail_row (py ''Failure Message'') = Some (Str (0xA0 # py ''Fail (Label) ''))
   \<and> failure_msg_of padded_fail_row = Inr (py ''Fail (Label)'')
   \<and> file_row_counts (fst (process_csv seen_b ''log.csv''
        (Inr (scenario_b @ [padded_fail_row, pass_row])))) ''log.csv'' = Some 5
   \<and> pass_of (cumulative_counts (fst (process_csv seen_b ''log.csv''
        (Inr (scenario_b @ [padded_fail_row, pass_row]))))) (py ''P1'') = 3
   \<and> fail_of (cumulative_counts (fst (process_csv seen_b ''log.csv''
        (Inr (scenario_b @ [padded_fail_row, pass_row]))))) (py ''P1'') = 2
   \<and> \<not> list_all readable (drop (cursor seen_b ''log.csv'') (scenario_b @ [pass_row, short_row]))
   \<and> snd (process_csv seen_b ''log.csv'' (Inr (scenario_b @ [pass_row, short_row]))) =
       Failed AttributeError
   \<and> pass_of (cumulative_counts (fst (process_csv seen_b ''log.csv''
        (Inr (scenario_b @ [pass_row, short_row]))))) (py ''P1'') = 2
   \<and> cursor (fst (process_csv seen_b ''log.csv''
        (Inr (scenario_b @ [pass_row, short_row])))) ''log.csv'' = 3"
proof -
  have c: "cursor seen_b ''log.csv'' = 3" by (simp add: seen_b_eq cursor_def)
  have d: "drop 3 (scenario_b @ [padded_fail_row, pass_row]) = [padded_fail_row, pass_row]"
    "drop 3 (scenario_b @ [pass_row, short_row]) = [pass_row, short_row]"
    "length (scenario_b @ [padded_fail_row, pass_row]) = 5"
    by (simp_all add: scenario_b_def)
  have m: "padded_fail_row (py ''Failure Message'') = Some (Str (0xA0 # py ''Fail (Label) ''))"
    by (simp add: padded_fail_row_def py_eq_iff)
  have s: "strip (0xA0 # py ''Fail (Label) '') = py ''Fail (Label)''"
    by (simp add: strip_def py_def is_space_def)
  have f: "failure_msg_of padded_fail_row = Inr (py ''Fail (Label)'')"
    "printer_of padded_fail_row = Inr (py ''P1'')"
    "failure_msg_of pass_row = Inr (py ''Pass (Label)'')"
    "printer_of pass_row = Inr (py ''P1'')"
    by (simp_all add: padded_fail_row_def pass_row_def failure_msg_of_def printer_of_def
          get_strip_def py_eq_iff s log_row_def strip_py is_space_def)
  have h1: "list_all readable (drop (cursor seen_b ''log.csv'')
              (scenario_b @ [padded_fail_row, pass_row]))"
    unfolding c d by (simp add: readable_iff f)
  have h2: "\<not> list_all readable (drop (cursor seen_b ''log.csv'')
              (scenario_b @ [pass_row, short_row]))"
    unfolding c d by (simp add: readable_def short_row_def py_eq_iff)
  have p: "pass_of (cumulative_counts seen_b) (py ''P1'') = 2"
    "fail_of (cumulative_counts seen_b) (py ''P1'') = 1"
    by (simp_all add: seen_b_eq pass_of_def fail_of_def)
  note t1 = rows_classified_by_failure_message[of padded_fail_row seen_b "''log.csv''"
      "scenario_b @ [padded_fail_row, pass_row]" "py ''P1''", unfolded c d]
  note t2 = rows_classified_by_failure_message[of padded_fail_row seen_b "''log.csv''"
      "scenario_b @ [pass_row, short_row]" "py ''P1''", unfolded c d]
  from t1 h1[unfolded c d] have u1:
    "file_row_counts (fst (process_csv seen_b ''log.csv''
        (Inr (scenario_b @ [padded_fail_row, pass_row])))) ''log.csv'' = Some 5"
    "pass_of (cumulative_counts (fst (process_csv seen_b ''log.csv''
        (Inr (scenario_b @ [padded_fail_row, pass_row]))))) (py ''P1'') = 3"
    "fail_of (cumulative_counts (fst (process_csv seen_b ''log.csv''
        (Inr (scenario_b @ [padded_fail_row, pass_row]))))) (py ''P1'') = 2"
    by (simp_all add: f p py_eq_iff)
  from t2 h2[unfolded c d] have u2:
    "snd (process_csv seen_b ''log.csv'' (Inr (scenario_b @ [pass_row, short_row]))) =
       Failed AttributeError"
    "pass_of (cumulative_counts (fst (process_csv seen_b ''log.csv''
        (Inr (scenario_b @ [pass_row, short_row]))))) (py ''P1'') = 2"
    "cursor (fst (process_csv seen_b ''log.csv''
        (Inr (scenario_b @ [pass_row, short_row])))) ''log.csv'' = 3"
    by (simp_all add: p c)
  from h1 h2 m f(1) u1 u2 show ?thesis by blast
qed

text \<open>
  Claim C7 as stated fails: a row whose column \<^verbatim>\<open>Outcome Message\<close> holds
  \<^verbatim>\<open>Pass (Label)\<close> is consumed and counts nothing; a row whose
  \<^verbatim>\<open>Failure Message\<close> holds the sentinel after a blank, which is not the same string,
  counts as a pass; and a row whose \<^verbatim>\<open>Failure Message\<close> is the sentinel and whose
  \<^verbatim>\<open>Printer Name\<close> is \<^verbatim>\<open>None\<close> is neither counted nor consumed.
\<close>

theorem outcome_message_column_not_read:
  "pass_of (cumulative_counts (fst (process_csv init_monitor ''log.csv''
      (Inr [[py ''Outcome Message'' \<mapsto> Str (py ''Pass (Label)''),
             py ''Printer Name'' \<mapsto> Str (py ''P1'')]]))))
      (py ''P1'') = 0
   \<and> cursor (fst (process_csv init_monitor ''log.csv''
      (Inr [[py ''Outcome Message'' \<mapsto> Str (py ''Pass (Label)''),
             py ''Printer Name'' \<mapsto> Str (py ''P1'')]])))
      ''log.csv'' = 1
   \<and> py '' Pass (Label)'' \<noteq> py ''Pass (Label)''
   \<and> pass_of (cumulative_counts (fst (process_csv init_monitor ''log.csv''
      (Inr [log_row '' Pass (Label)'' ''P1'']))))
      (py ''P1'') = 1
   \<and> short_row (py ''Failure Message'') = Some (Str (py ''Pass (Label)''))
   \<and> process_csv init_monitor ''log.csv'' (Inr [short_row]) = (retry_state, Failed AttributeError)
   \<and> cumulative_counts retry_state = Map.empty
   \<and> cursor retry_state ''log.csv'' = 0"
  by (simp add: short_row_def retry_state_def csv_eval row_eval)

text \<open>
  Claim C8. After a call of \<^verbatim>\<open>process_csv\<close> that does not fail, the stored row count is
  the number of rows the file has, and a further call on the same contents reads no row
  and changes nothing. This holds also when none of the new rows is a pass or a fail; then
  no counter has changed its value.
\<close>

theorem successful_pass_stores_total:
  assumes "process_csv self csv_path (Inr rows) = (self', out)" and "\<not> is_failed out"
  shows "file_row_counts self' csv_path = Some (length rows)
       \<and> process_csv self' csv_path (Inr rows) = (self', Silent)
       \<and> ((\<forall>row \<in> set (drop (cursor self csv_path) rows).
              failure_msg_of row \<noteq> Inr (py ''Pass (Label)'') \<and>
              failure_msg_of row \<noteq> Inr (py ''Fail (Label)'')) \<longrightarrow>
            pass_of (cumulative_counts self') printer = pass_of (cumulative_counts self) printer \<and>
            fail_of (cumulative_counts self') printer = fail_of (cumulative_counts self) printer)"
proof -
  have "file_row_counts self' csv_path = Some (length rows)"
    using process_csv_ok(1)[OF assms] by simp
  moreover have "process_csv self' csv_path (Inr rows) = (self', Silent)"
    by (rule process_csv_repeat[OF assms])
  moreover have "pass_of (cumulative_counts self') printer = pass_of (cumulative_counts self) printer \<and>
      fail_of (cumulative_counts self') printer = fail_of (cumulative_counts self) printer"
    if "\<forall>row \<in> set (drop (cursor self csv_path) rows).
          failure_msg_of row \<noteq> Inr (py ''Pass (Label)'') \<and> failure_msg_of row \<noteq> Inr (py ''Fail (Label)'')"
    using process_csv_ok(3,4)[OF assms, of printer]
      passes_in_none[of "drop (cursor self csv_path) rows" printer]
      fails_in_none[of "drop (cursor self csv_path) rows" printer] that
    by simp
  ultimately show ?thesis by blast
qed

theorem successful_pass_stores_total_witness:
  "process_csv init_monitor ''log.csv'' (Inr unclassified_rows) =
     (seen_unclassified, Emitted (cumulative_counts seen_unclassified))
   \<and> \<not> is_failed (Emitted (cumulative_counts seen_unclassified))
   \<and> list_all (\<lambda>row. failure_msg_of row \<noteq> Inr (py ''Pass (Label)'') \<and>
                      failure_msg_of row \<noteq> Inr (py ''Fail (Label)''))
        (drop (cursor init_monitor ''log.csv'') unclassified_rows)
   \<and> file_row_counts seen_unclassified ''log.csv'' = Some 3
   \<and> process_csv seen_unclassified ''log.csv'' (Inr unclassified_rows) = (seen_unclassified, Silent)
   \<and> pass_of (cumulative_counts seen_unclassified) (py ''P1'') = 0
   \<and> fail_of (cumulative_counts seen_unclassified) (py ''P1'') = 0"
proof -
  have h1: "process_csv init_monitor ''log.csv'' (Inr unclassified_rows) =
     (seen_unclassified, Emitted (cumulative_counts seen_unclassified))"
    by (simp add: unclassified_rows_def seen_unclassified_def csv_eval row_eval numeral_3_eq_3
          fun_upd_twist)
  have h2: "\<not> is_failed (Emitted (cumulative_counts seen_unclassified))" by simp
  have h3: "\<forall>row \<in> set (drop (cursor init_monitor ''log.csv'') unclassified_rows).
              failure_msg_of row \<noteq> Inr (py ''Pass (Label)'') \<and>
              failure_msg_of row \<noteq> Inr (py ''Fail (Label)'')"
    by (simp add: unclassified_rows_def csv_eval row_eval)
  have p: "length unclassified_rows = 3" "pass_of (cumulative_counts init_monitor) (py ''P1'') = 0"
    "fail_of (cumulative_counts init_monitor) (py ''P1'') = 0"
    by (simp_all add: unclassified_rows_def csv_eval)
  show ?thesis
    using h1 h2 h3 successful_pass_stores_total[OF h1 h2, of "(py ''P1'')"]
    by (simp add: p list_all_iff)
qed

text \<open>
  Claim C9. A call of \<^verbatim>\<open>process_csv\<close> that fails (the file cannot be opened or read, or
  a new row holds \<^verbatim>\<open>None\<close> in a column the loop strips) changes no printer counter,
  leaves the stored row count of the file and of every other file as it was, and every
  later call behaves as if the failed call had not happened.
\<close>

theorem failed_call_changes_nothing:
  assumes "process_csv self csv_path contents = (self', out)" and "is_failed out"
  shows "cumulative_counts self' = cumulative_counts self
       \<and> cursor self' csv_path = cursor self csv_path
       \<and> (\<forall>other. other \<noteq> csv_path \<longrightarrow> file_row_counts self' other = file_row_counts self other)
       \<and> process_csv self' csv_path later = process_csv self csv_path later"
proof -
  note f = process_csv_failed[OF assms]
  have s': "self' = self\<lparr>file_row_counts := (file_row_counts self)(csv_path \<mapsto> cursor self csv_path)\<rparr>"
    using f(1,2) by (cases self, cases self') simp
  have "process_csv self' csv_path later = process_csv self csv_path later"
    unfolding process_csv_eq f(3) by (simp add: s' split: sum.splits)
  then show ?thesis using f by simp
qed

theorem failed_call_changes_nothing_witness:
  "process_csv init_monitor ''log.csv'' (Inr [log_row ''Pass (Label)'' ''P1'', short_row]) =
     (retry_state, Failed AttributeError)
   \<and> is_failed (Failed AttributeError)
   \<and> cumulative_counts retry_state (py ''P1'') = None
   \<and> cursor retry_state ''log.csv'' = 0
   \<and> process_csv retry_state ''log.csv''
         (Inr [log_row ''Pass (Label)'' ''P1'', log_row ''Pass (Label)'' ''P1'']) =
       process_csv init_monitor ''log.csv''
         (Inr [log_row ''Pass (Label)'' ''P1'', log_row ''Pass (Label)'' ''P1''])
   \<and> pass_of (cumulative_counts (fst (process_csv retry_state ''log.csv''
         (Inr [log_row ''Pass (Label)'' ''P1'', log_row ''Pass (Label)'' ''P1''])))) (py ''P1'') = 2"
proof -
  have h1: "process_csv init_monitor ''log.csv'' (Inr [log_row ''Pass (Label)'' ''P1'', short_row]) =
            (retry_state, Failed AttributeError)"
    by (simp add: retry_state_def short_row_def csv_eval row_eval)
  have h2: "is_failed (Failed AttributeError)" by simp
  have c: "cursor init_monitor ''log.csv'' = 0" "cumulative_counts init_monitor (py ''P1'') = None"
    by (simp_all add: init_monitor_def cursor_def)
  have p: "pass_of (cumulative_counts (fst (process_csv init_monitor ''log.csv''
         (Inr [log_row ''Pass (Label)'' ''P1'', log_row ''Pass (Label)'' ''P1''])))) (py ''P1'') = 2"
    by (simp add: csv_eval row_eval)
  show ?thesis
    using h1 h2 p failed_call_changes_nothing[OF h1 h2,
        of "Inr [log_row ''Pass (Label)'' ''P1'', log_row ''Pass (Label)'' ''P1'']"]
    by (simp add: c)
qed

text \<open>
  Claim C10, as amended. The fallback \<^verbatim>\<open>Printer_1\<close> is the printer of a row only when
  its column \<^verbatim>\<open>Printer Name\<close> is absent; a present string is stripped and used as it
  is. A row whose \<^verbatim>\<open>Printer Name\<close> is present and blank (empty or white space only,
  of any kind \<^verbatim>\<open>str.strip\<close> removes) is attributed to the empty printer name: it is
  an event of the empty name and of no other. In a pass that reads it and does not fail
  (no new row holds \<^verbatim>\<open>None\<close> in \<^verbatim>\<open>Failure Message\<close> or \<^verbatim>\<open>Printer Name\<close>), the
  entry of the empty name exists afterwards and its counters have grown by the events of
  the new rows attributed to it, and the entry of \<^verbatim>\<open>Printer_1\<close> is untouched unless
  another new row is attributed to \<^verbatim>\<open>Printer_1\<close>. In a pass that fails nothing is
  created.
\<close>

theorem blank_printer_name_is_empty_key:
  assumes "row (py ''Printer Name'') = Some (Str v)" and "\<forall>c \<in> set v. is_space c"
    and "row \<in> set (drop (cursor self csv_path) rows)"
  shows "printer_of row = Inr []
       \<and> (is_event sentinel printer row \<longleftrightarrow> printer = [] \<and> failure_msg_of row = Inr sentinel)
       \<and> (list_all readable (drop (cursor self csv_path) rows) \<longrightarrow>
            \<not> is_failed (snd (process_csv self csv_path (Inr rows)))
          \<and> cumulative_counts (fst (process_csv self csv_path (Inr rows))) [] \<noteq> None
          \<and> pass_of (cumulative_counts (fst (process_csv self csv_path (Inr rows)))) [] =
              pass_of (cumulative_counts self) []
              + passes_in [] (drop (cursor self csv_path) rows)
          \<and> fail_of (cumulative_counts (fst (process_csv self csv_path (Inr rows)))) [] =
              fail_of (cumulative_counts self) []
              + fails_in [] (drop (cursor self csv_path) rows)
          \<and> (failure_msg_of row = Inr (py ''Pass (Label)'') \<longrightarrow>
                1 \<le> passes_in [] (drop (cursor self csv_path) rows))
          \<and> (failure_msg_of row = Inr (py ''Fail (Label)'') \<longrightarrow>
                1 \<le> fails_in [] (drop (cursor self csv_path) rows))
          \<and> (list_all (\<lambda>new. printer_of new \<noteq> Inr (py ''Printer_1''))
                (drop (cursor self csv_path) rows) \<longrightarrow>
              cumulative_counts (fst (process_csv self csv_path (Inr rows))) (py ''Printer_1'') =
              cumulative_counts self (py ''Printer_1'')))
       \<and> (\<not> list_all readable (drop (cursor self csv_path) rows) \<longrightarrow>
            snd (process_csv self csv_path (Inr rows)) = Failed AttributeError
          \<and> cumulative_counts (fst (process_csv self csv_path (Inr rows))) = cumulative_counts self)
       \<and> (other (py ''Printer Name'') = None \<longrightarrow> printer_of other = Inr (py ''Printer_1''))
       \<and> (other (py ''Printer Name'') = Some (Str w) \<longrightarrow> printer_of other = Inr (strip w))"
proof -
  let ?new = "drop (cursor self csv_path) rows"
  have pr: "printer_of row = Inr []"
    using assms(1) strip_blank[OF assms(2)] by (simp add: printer_of_def get_strip_def)
  have evg: "is_event s q row \<longleftrightarrow> q = [] \<and> failure_msg_of row = Inr s" for s q
    by (auto simp: is_event_def pr)
  have ev: "is_event sentinel printer row \<longleftrightarrow> printer = [] \<and> failure_msg_of row = Inr sentinel"
    by (rule evg)
  have ge: "1 \<le> int (length (filter P ?new))" if "P row" for P
  proof -
    have "row \<in> set (filter P ?new)" using assms(3) that by simp
    then obtain x xs where "filter P ?new = x # xs" by (cases "filter P ?new") auto
    then show ?thesis by simp
  qed
  have ok: "\<not> is_failed (snd (process_csv self csv_path (Inr rows)))
          \<and> cumulative_counts (fst (process_csv self csv_path (Inr rows))) [] \<noteq> None
          \<and> pass_of (cumulative_counts (fst (process_csv self csv_path (Inr rows)))) [] =
              pass_of (cumulative_counts self) [] + passes_in [] ?new
          \<and> fail_of (cumulative_counts (fst (process_csv self csv_path (Inr rows)))) [] =
              fail_of (cumulative_counts self) [] + fails_in [] ?new
          \<and> (failure_msg_of row = Inr (py ''Pass (Label)'') \<longrightarrow> 1 \<le> passes_in [] ?new)
          \<and> (failure_msg_of row = Inr (py ''Fail (Label)'') \<longrightarrow> 1 \<le> fails_in [] ?new)
          \<and> (list_all (\<lambda>new. printer_of new \<noteq> Inr (py ''Printer_1'')) ?new \<longrightarrow>
              cumulative_counts (fst (process_csv self csv_path (Inr rows))) (py ''Printer_1'') =
              cumulative_counts self (py ''Printer_1''))"
    if r: "list_all readable ?new"
  proof -
    obtain s' out where s': "process_csv self csv_path (Inr rows) = (s', out)"
      by (cases "process_csv self csv_path (Inr rows)")
    have out: "\<not> is_failed out" using process_csv_readable[OF r] by (simp add: s')
    have 1: "cumulative_counts s' [] \<noteq> None"
      using process_csv_created[OF s' out assms(3) pr] .
    have 2: "failure_msg_of row = Inr (py ''Pass (Label)'') \<longrightarrow> 1 \<le> passes_in [] ?new"
      unfolding passes_in_def using ge[of "is_event (py ''Pass (Label)'') []"]
      by (auto simp: evg)
    have 3: "failure_msg_of row = Inr (py ''Fail (Label)'') \<longrightarrow> 1 \<le> fails_in [] ?new"
      unfolding fails_in_def using ge[of "is_event (py ''Fail (Label)'') []"]
      by (auto simp: evg)
    have 4: "list_all (\<lambda>new. printer_of new \<noteq> Inr (py ''Printer_1'')) ?new \<longrightarrow>
             cumulative_counts s' (py ''Printer_1'') = cumulative_counts self (py ''Printer_1'')"
      using process_csv_untouched[OF s' out, of "py ''Printer_1''"] by (simp add: list_all_iff)
    show ?thesis
      using out 1 2 3 4 process_csv_ok(3)[OF s' out, of "[]"] process_csv_ok(4)[OF s' out, of "[]"]
      by (simp add: s')
  qed
  have bad: "snd (process_csv self csv_path (Inr rows)) = Failed AttributeError
          \<and> cumulative_counts (fst (process_csv self csv_path (Inr rows))) = cumulative_counts self"
    if "\<not> list_all readable ?new"
    by (simp add: process_csv_unreadable[OF that])
  have o1: "other (py ''Printer Name'') = None \<longrightarrow> printer_of other = Inr (py ''Printer_1'')"
    by (simp add: printer_of_def get_strip_def strip_py is_space_def)
  have o2: "other (py ''Printer Name'') = Some (Str w) \<longrightarrow> printer_of other = Inr (strip w)"
    by (simp add: printer_of_def get_strip_def)
  show ?thesis using pr ev ok bad o1 o2 by blast
qed

theorem blank_printer_name_is_empty_key_witness:
  "blank_printer_row (py ''Printer Name'') = Some (Str [0x20, 0xA0, 0x3000])
   \<and> list_all is_space [0x20, 0xA0, 0x3000]
   \<and> list_all readable (drop (cursor seen_b ''log.csv'') (scenario_b @ [blank_printer_row]))
   \<and> printer_of blank_printer_row = Inr []
   \<and> cumulative_counts seen_b [] = None
   \<and> cumulative_counts (fst (process_csv seen_b ''log.csv''
        (Inr (scenario_b @ [blank_printer_row])))) [] \<noteq> None
   \<and> pass_of (cumulative_counts (fst (process_csv seen_b ''log.csv''
        (Inr (scenario_b @ [blank_printer_row]))))) [] = 1
   \<and> cumulative_counts (fst (process_csv seen_b ''log.csv''
        (Inr (scenario_b @ [blank_printer_row])))) (py ''Printer_1'') = None
   \<and> printer_of [py ''Failure Message'' \<mapsto> Str (py ''Pass (Label)'')] = Inr (py ''Printer_1'')"
proof -
  have c: "cursor seen_b ''log.csv'' = 3" by (simp add: seen_b_eq cursor_def)
  have d: "drop 3 (scenario_b @ [blank_printer_row]) = [blank_printer_row]"
    by (simp add: scenario_b_def)
  have h1: "blank_printer_row (py ''Printer Name'') = Some (Str [0x20, 0xA0, 0x3000])"
    by (simp add: blank_printer_row_def)
  have h2: "\<forall>c \<in> set [0x20, 0xA0, 0x3000]. is_space c" by (simp add: is_space_def)
  have h2': "list_all is_space [0x20, 0xA0, 0x3000]" using h2 by (simp only: list_all_iff)
  have h3: "blank_printer_row \<in> set (drop (cursor seen_b ''log.csv'')
              (scenario_b @ [blank_printer_row]))"
    unfolding c d by simp
  have f: "failure_msg_of blank_printer_row = Inr (py ''Pass (Label)'')"
    by (simp add: blank_printer_row_def failure_msg_of_def get_strip_def py_eq_iff strip_py
          is_space_def)
  have h4: "list_all readable (drop (cursor seen_b ''log.csv'')
              (scenario_b @ [blank_printer_row]))"
    unfolding c d by (simp add: readable_def blank_printer_row_def py_eq_iff)
  have p: "pass_of (cumulative_counts seen_b) [] = 0"
    "cumulative_counts seen_b (py ''Printer_1'') = None" "cumulative_counts seen_b [] = None"
    by (simp_all add: seen_b_eq pass_of_def py_eq_iff py_eq_Nil)
  have q: "[py ''Failure Message'' \<mapsto> Str (py ''Pass (Label)'')] (py ''Printer Name'') = None"
    by (simp add: py_eq_iff)
  note t = blank_printer_name_is_empty_key[OF h1 h2 h3,
      of "py ''Pass (Label)''" "[]" "[py ''Failure Message'' \<mapsto> Str (py ''Pass (Label)'')]",
      unfolded c d]
  have pr: "printer_of blank_printer_row = Inr []" using t by blast
  have n: "passes_in [] [blank_printer_row] = 1"
    by (simp add: passes_in_def is_event_def pr f)
  have l: "list_all (\<lambda>new. printer_of new \<noteq> Inr (py ''Printer_1'')) [blank_printer_row]"
    by (simp add: pr py_eq_Nil)
  from t h4[unfolded c d] l have u:
    "cumulative_counts (fst (process_csv seen_b ''log.csv''
        (Inr (scenario_b @ [blank_printer_row])))) [] \<noteq> None"
    "pass_of (cumulative_counts (fst (process_csv seen_b ''log.csv''
        (Inr (scenario_b @ [blank_printer_row]))))) [] = 1"
    "cumulative_counts (fst (process_csv seen_b ''log.csv''
        (Inr (scenario_b @ [blank_printer_row])))) (py ''Printer_1'') = None"
    by (simp_all add: p n)
  from t q have o: "printer_of [py ''Failure Message'' \<mapsto> Str (py ''Pass (Label)'')] =
        Inr (py ''Printer_1'')" by blast
  from h1 h2' h4 pr p(3) u o show ?thesis by blast
qed

text \<open>
  Claim C10 as stated fails for a blank-printer row of a pass that fails: a line that
  holds only a blank under the header \<^verbatim>\<open>Printer Name,Failure Message\<close> has a blank
  printer name and \<^verbatim>\<open>None\<close> as its failure message. The pass over it raises, and no
  entry is created under the empty name.
\<close>

theorem blank_printer_row_of_failed_pass:
  "blank_short_row (py ''Printer Name'') = Some (Str (py ''  ''))
   \<and> list_all is_space (py ''  '')
   \<and> blank_short_row (py ''Failure Message'') = Some NoneCell
   \<and> process_csv init_monitor ''log.csv'' (Inr [blank_short_row]) =
       (retry_state, Failed AttributeError)
   \<and> cumulative_counts retry_state [] = None"
  by (simp add: blank_short_row_def retry_state_def csv_eval row_eval py_def is_space_def)

section \<open>The claims about the roll widget and the job detail widget\<close>

text \<open>
  Claim C2, as amended. \<^verbatim>\<open>update_progress\<close> changes nothing when the roll is not Running
  (Idle, Paused, Stopped or Completed: progress, state, baselines, widgets and database
  stay as they are). On a Running roll whose baseline is null it only stores the
  snapshot's pass and fail values as the baseline. That is the case of the first call
  after \<^verbatim>\<open>start_roll\<close> has put the roll into Running: progress and state stay as
  \<^verbatim>\<open>start_roll\<close> left them.
\<close>

theorem update_progress_noop_or_baseline:
  "(state self \<noteq> Running \<longrightarrow> update_progress self cumulative db = Inr (self, db))
   \<and> (state self = Running \<and> baseline_pass self = None \<longrightarrow>
        update_progress self cumulative db =
          Inr (self\<lparr>baseline_pass := Some (dict_get cumulative ''pass'' 0),
                    baseline_fail := Some (dict_get cumulative ''fail'' 0)\<rparr>, db))
   \<and> (state self \<noteq> Running \<longrightarrow>
        state (fst (start_roll self db)) = Running \<and>
        baseline_pass (fst (start_roll self db)) = None \<and>
        update_progress (fst (start_roll self db)) cumulative db1 =
          Inr ((fst (start_roll self db))
                 \<lparr>baseline_pass := Some (dict_get cumulative ''pass'' 0),
                  baseline_fail := Some (dict_get cumulative ''fail'' 0)\<rparr>, db1))"
proof -
  have "state self \<noteq> Running \<Longrightarrow>
        state (fst (start_roll self db)) = Running \<and> baseline_pass (fst (start_roll self db)) = None"
    by (simp add: start_roll_def)
  then show ?thesis
    using update_progress_not_running[of self cumulative db]
      update_progress_first[of self cumulative db]
      update_progress_first[of "fst (start_roll self db)" cumulative db1]
    by blast
qed

theorem update_progress_noop_or_baseline_witness:
  "state fresh_roll \<noteq> Running
   \<and> update_progress fresh_roll (snapshot 7 1) [] = Inr (fresh_roll, [])
   \<and> state started_roll = Running \<and> baseline_pass started_roll = None
   \<and> update_progress started_roll (snapshot 7 1) [] =
       Inr (started_roll\<lparr>baseline_pass := Some 7, baseline_fail := Some 1\<rparr>, [])
   \<and> current_progress (started_roll\<lparr>baseline_pass := Some 7, baseline_fail := Some 1\<rparr>) = 0"
proof -
  have h1: "state fresh_roll \<noteq> Running" by (simp add: fresh_roll_def new_roll_widget_def)
  have h2: "state started_roll = Running \<and> baseline_pass started_roll = None"
    by (simp add: started_roll_def fresh_roll_def roll_eval)
  have d: "dict_get (snapshot 7 1) ''pass'' 0 = 7" "dict_get (snapshot 7 1) ''fail'' 0 = 1"
    by (simp_all add: dict_get_def snapshot_def)
  have c: "current_progress started_roll = 0"
    by (simp add: started_roll_def fresh_roll_def roll_eval)
  show ?thesis
    using h1 h2 c update_progress_noop_or_baseline[of fresh_roll "snapshot 7 1" "[]" "[]"]
      update_progress_noop_or_baseline[of started_roll "snapshot 7 1" "[]" "[]"]
    by (simp add: d)
qed

text \<open>
  Claim C2 as stated fails for a roll that enters Running by a resume: the roll is
  started, captures its baseline at 2 passes, is paused and resumed. The first update
  after it has entered Running again, at 7 passes, moves the progress from 0 to 5.
\<close>

theorem first_update_after_resume_advances:
  "\<exists>resumed db1 updated db2.
     roll_run fresh_roll [] [ClickStart, Update (snapshot 2 0), ClickPause, ClickPause] =
       Inr (resumed, db1)
     \<and> state resumed = Running \<and> current_progress resumed = 0
     \<and> update_progress resumed (snapshot 7 0) db1 = Inr (updated, db2)
     \<and> current_progress updated = 5 \<and> baseline_pass updated = Some 2"
  by (simp add: fresh_roll_def roll_eval)

text \<open>
  Claim C3. On a Running roll with a captured baseline, \<^verbatim>\<open>update_progress\<close> sets the
  progress to the smaller of the passes since the baseline and the goal, and the roll is
  Completed afterwards exactly when the passes since the baseline have reached the goal
  (it stays Running otherwise). A Completed roll is left as it is by every further
  sequence of \<^verbatim>\<open>update_progress\<close> calls.
\<close>

theorem update_progress_completes_at_goal:
  assumes "state self = Running" and "baseline_pass self = Some bp" and "baseline_fail self = Some bf"
  shows "\<exists>self' db'.
           update_progress self cumulative db = Inr (self', db')
         \<and> current_progress self' = min (dict_get cumulative ''pass'' 0 - bp) (labels_goal self)
         \<and> (state self' = Completed \<longleftrightarrow> labels_goal self \<le> dict_get cumulative ''pass'' 0 - bp)
         \<and> (state self' = Completed \<or> state self' = Running)
         \<and> (state self' = Completed \<longrightarrow>
              (\<forall>later db''. update_all self' later db'' = Inr (self', db'')))"
proof (cases "labels_goal self \<le> dict_get cumulative ''pass'' 0 - bp")
  case True
  then show ?thesis using assms
    by (simp add: update_progress_def Let_def update_all_not_running)
next
  case False
  then show ?thesis using assms
    by (simp add: update_progress_def Let_def)
qed

theorem update_progress_completes_at_goal_witness:
  "state counting_roll = Running \<and> baseline_pass counting_roll = Some 2
   \<and> baseline_fail counting_roll = Some 0 \<and> labels_goal counting_roll = 100
   \<and> (\<exists>self' db'. update_progress counting_roll (snapshot 102 3) [] = Inr (self', db')
         \<and> current_progress self' = 100 \<and> state self' = Completed
         \<and> update_all self' [snapshot 150 3, snapshot 500 9] db' = Inr (self', db'))"
proof -
  have h: "state counting_roll = Running" "baseline_pass counting_roll = Some 2"
    "baseline_fail counting_roll = Some 0"
    by (simp_all add: counting_roll_def started_roll_def fresh_roll_def roll_eval)
  have g: "labels_goal counting_roll = 100"
    by (simp add: counting_roll_def started_roll_def fresh_roll_def roll_eval)
  have d: "dict_get (snapshot 102 3) ''pass'' 0 = 102"
    by (simp add: dict_get_def snapshot_def)
  from update_progress_completes_at_goal[OF h, of "snapshot 102 3" "[]"]
  obtain self' db' where u: "update_progress counting_roll (snapshot 102 3) [] = Inr (self', db')"
    and c: "current_progress self' = min (102 - 2) 100"
    and s: "state self' = Completed \<longleftrightarrow> (100::int) \<le> 102 - 2"
    and l: "state self' = Completed \<longrightarrow>
            (\<forall>later db''. update_all self' later db'' = Inr (self', db''))"
    unfolding d g by blast
  from s have s': "state self' = Completed" by simp
  with l have "update_all self' [snapshot 150 3, snapshot 500 9] db' = Inr (self', db')" by blast
  with u c s' h g show ?thesis by simp
qed

text \<open>
  Claim C5, as amended. \<^verbatim>\<open>start_roll\<close> acts whenever the roll is not Running: it sets
  the state to Running, resets both baselines to null and records a start action; on a
  Running roll it changes nothing. The Start button that calls it is disabled by the
  first start and never enabled again, so on a roll widget that was only clicked and
  updated a click on Start changes nothing unless the roll is Idle, and a Stopped or
  Completed roll stays as it is under all further clicks and updates.
\<close>

theorem start_roll_guard:
  "(state self \<noteq> Running \<longrightarrow>
      start_roll self db =
        (self\<lparr>state := Running, baseline_pass := None, baseline_fail := None,
              start_btn_enabled := False, pause_btn_text := ''Pause''\<rparr>,
         db @ [(job_id self, roll_number self, ''start'', [])]))
   \<and> (state self = Running \<longrightarrow> start_roll self db = (self, db))
   \<and> (roll_run (new_roll_widget i n goal printer) db0 evs = Inr (r, db1) \<and> state r \<noteq> Idle \<longrightarrow>
        roll_step r db1 ClickStart = Inr (r, db1))
   \<and> (roll_run (new_roll_widget i n goal printer) db0 evs = Inr (r, db1) \<and>
        (state r = Stopped \<or> state r = Completed) \<longrightarrow>
        (\<forall>more. roll_run r db1 more = Inr (r, db1)))"
proof -
  have a: "state self \<noteq> Running \<longrightarrow>
      start_roll self db =
        (self\<lparr>state := Running, baseline_pass := None, baseline_fail := None,
              start_btn_enabled := False, pause_btn_text := ''Pause''\<rparr>,
         db @ [(job_id self, roll_number self, ''start'', [])])"
    by (simp add: start_roll_def log_roll_action_def)
  have b: "state self = Running \<longrightarrow> start_roll self db = (self, db)"
    by (simp add: start_roll_def)
  have c: "roll_step r db1 ClickStart = Inr (r, db1)"
    if "roll_run (new_roll_widget i n goal printer) db0 evs = Inr (r, db1)" "state r \<noteq> Idle"
  proof -
    have "roll_inv r" using roll_run_inv[OF new_roll_inv that(1)] .
    then show ?thesis using that(2) by (simp add: roll_inv_def)
  qed
  have d: "roll_run r db1 more = Inr (r, db1)"
    if "roll_run (new_roll_widget i n goal printer) db0 evs = Inr (r, db1)"
      "state r = Stopped \<or> state r = Completed" for more
    using terminal_run[OF roll_run_inv[OF new_roll_inv that(1)] that(2)] .
  show ?thesis using a b c d by blast
qed

theorem start_roll_guard_witness:
  "state fresh_roll \<noteq> Running
   \<and> state (fst (start_roll fresh_roll [])) = Running
   \<and> baseline_pass (fst (start_roll fresh_roll [])) = None
   \<and> baseline_fail (fst (start_roll fresh_roll [])) = None
   \<and> snd (start_roll fresh_roll []) = [(1, 1, ''start'', [])]
   \<and> state started_roll = Running
   \<and> start_roll started_roll [] = (started_roll, [])
   \<and> roll_run (new_roll_widget 1 1 100 (py ''Printer_1'')) [] [ClickStart, ClickStop True] =
        Inr (stopped_roll, [(1, 1, ''start'', []), (1, 1, ''stop'', [])])
   \<and> state stopped_roll = Stopped
   \<and> state stopped_roll \<noteq> Idle
   \<and> roll_step stopped_roll [(1, 1, ''start'', []), (1, 1, ''stop'', [])] ClickStart =
        Inr (stopped_roll, [(1, 1, ''start'', []), (1, 1, ''stop'', [])])
   \<and> roll_run stopped_roll [(1, 1, ''start'', []), (1, 1, ''stop'', [])]
        [ClickStart, ClickPause, Update (snapshot 5 0), ClickStop True] =
        Inr (stopped_roll, [(1, 1, ''start'', []), (1, 1, ''stop'', [])])"
proof -
  have h1: "state fresh_roll \<noteq> Running" by (simp add: fresh_roll_def new_roll_widget_def)
  have h2: "state started_roll = Running"
    by (simp add: started_roll_def fresh_roll_def roll_eval)
  have h3: "roll_run (new_roll_widget 1 1 100 (py ''Printer_1'')) [] [ClickStart, ClickStop True] =
        Inr (stopped_roll, [(1, 1, ''start'', []), (1, 1, ''stop'', [])])"
    by (simp add: stopped_roll_def started_roll_def fresh_roll_def roll_eval)
  have h4: "state stopped_roll = Stopped"
    by (simp add: stopped_roll_def started_roll_def fresh_roll_def roll_eval)
  have f: "job_id fresh_roll = 1" "roll_number fresh_roll = 1"
    by (simp_all add: fresh_roll_def new_roll_widget_def)
  have h5: "state stopped_roll \<noteq> Idle" using h4 by simp
  note t1 = start_roll_guard[of fresh_roll "[]" 1 1 100 "(py ''Printer_1'')" "[]"
      "[ClickStart, ClickStop True]" stopped_roll "[(1, 1, ''start'', []), (1, 1, ''stop'', [])]"]
  note t2 = start_roll_guard[of started_roll "[]" 1 1 100 "(py ''Printer_1'')" "[]"
      "[ClickStart, ClickStop True]" stopped_roll "[(1, 1, ''start'', []), (1, 1, ''stop'', [])]"]
  from t1 h1 have s1: "start_roll fresh_roll [] =
        (fresh_roll\<lparr>state := Running, baseline_pass := None, baseline_fail := None,
              start_btn_enabled := False, pause_btn_text := ''Pause''\<rparr>,
         [] @ [(job_id fresh_roll, roll_number fresh_roll, ''start'', [])])" by blast
  have c1: "state (fst (start_roll fresh_roll [])) = Running"
    "baseline_pass (fst (start_roll fresh_roll [])) = None"
    "baseline_fail (fst (start_roll fresh_roll [])) = None"
    "snd (start_roll fresh_roll []) = [(1, 1, ''start'', [])]"
    unfolding s1 by (simp_all add: f)
  from t2 h2 have c2: "start_roll started_roll [] = (started_roll, [])" by blast
  from t1 h3 h5 have c3:
    "roll_step stopped_roll [(1, 1, ''start'', []), (1, 1, ''stop'', [])] ClickStart =
        Inr (stopped_roll, [(1, 1, ''start'', []), (1, 1, ''stop'', [])])" by blast
  from t1 h3 h4 have c4: "roll_run stopped_roll [(1, 1, ''start'', []), (1, 1, ''stop'', [])]
        [ClickStart, ClickPause, Update (snapshot 5 0), ClickStop True] =
        Inr (stopped_roll, [(1, 1, ''start'', []), (1, 1, ''stop'', [])])" by blast
  show ?thesis using h1 h2 h3 h4 h5 c1 c2 c3 c4 by blast
qed

text \<open>
  Claim C5 as stated fails for the method: called on a Stopped roll, \<^verbatim>\<open>start_roll\<close>
  makes it Running and records a second start; called on a Paused roll with the baseline
  2, it makes it Running and resets the baseline.
\<close>

theorem start_roll_restarts_stopped_roll:
  "roll_run fresh_roll [] [ClickStart, ClickStop True] =
     Inr (stopped_roll, [(1, 1, ''start'', []), (1, 1, ''stop'', [])])
   \<and> state stopped_roll = Stopped
   \<and> state (fst (start_roll stopped_roll [(1, 1, ''start'', []), (1, 1, ''stop'', [])])) = Running
   \<and> snd (start_roll stopped_roll [(1, 1, ''start'', []), (1, 1, ''stop'', [])]) =
       [(1, 1, ''start'', []), (1, 1, ''stop'', []), (1, 1, ''start'', [])]
   \<and> (\<exists>paused db1.
         roll_run fresh_roll [] [ClickStart, Update (snapshot 2 0), ClickPause] = Inr (paused, db1)
       \<and> state paused = Paused \<and> baseline_pass paused = Some 2
       \<and> state (fst (start_roll paused db1)) = Running
       \<and> baseline_pass (fst (start_roll paused db1)) = None)"
  by (simp add: stopped_roll_def started_roll_def fresh_roll_def roll_eval)

text \<open>
  Claim C6, as amended. For a job with a nonzero roll size the job detail widget creates
  the rolls numbered from 1 to the ceiling of quantity / labels_per_roll, all Idle and
  each with the goal labels_per_roll. For quantity 250 and roll size 100 these are three
  rolls numbered 1, 2, 3 with the goals 100, 100 and 100. Roll 1 is started; the update
  with 2 cumulative passes sets the baseline and leaves the progress at 0; the update
  with 102 cumulative passes sets the progress to min(100, 100) = 100 and completes the
  roll.
\<close>

theorem job_detail_rolls:
  "(labels_per_roll j \<noteq> 0 \<longrightarrow>
      (\<exists>jd. new_job_detail j = Inr jd
        \<and> map roll_number (roll_widgets jd) =
            [1..\<lceil>real_of_int (quantity j) / real_of_int (labels_per_roll j)\<rceil>]
        \<and> (\<forall>r \<in> set (roll_widgets jd).
              labels_goal r = labels_per_roll j \<and> state r = Idle \<and> current_progress r = 0)))
   \<and> (\<exists>r1 r2 r3 jd1 db1 jd2 db2 r1'.
        new_job_detail (example_job 250 100) =
          Inr \<lparr>the_job = example_job 250 100, roll_widgets = [r1, r2, r3]\<rparr>
      \<and> map roll_number [r1, r2, r3] = [1, 2, 3]
      \<and> map labels_goal [r1, r2, r3] = [100, 100, 100]
      \<and> update_rolls \<lparr>the_job = example_job 250 100,
                        roll_widgets = [fst (start_roll r1 []), r2, r3]\<rparr>
           [(py ''Printer_1'') \<mapsto> \<lparr>pass = 2, fail = 0\<rparr>] (snd (start_roll r1 [])) = Inr (jd1, db1)
      \<and> map current_progress (roll_widgets jd1) = [0, 0, 0]
      \<and> update_rolls jd1 [(py ''Printer_1'') \<mapsto> \<lparr>pass = 102, fail = 4\<rparr>] db1 = Inr (jd2, db2)
      \<and> roll_widgets jd2 = [r1', r2, r3]
      \<and> current_progress r1' = min (102 - 2) 100 \<and> current_progress r1' = 100
      \<and> state r1' = Completed)"
proof -
  have general: "labels_per_roll j \<noteq> 0 \<longrightarrow>
      (\<exists>jd. new_job_detail j = Inr jd
        \<and> map roll_number (roll_widgets jd) =
            [1..\<lceil>real_of_int (quantity j) / real_of_int (labels_per_roll j)\<rceil>]
        \<and> (\<forall>r \<in> set (roll_widgets jd).
              labels_goal r = labels_per_roll j \<and> state r = Idle \<and> current_progress r = 0))"
  proof
    assume l: "labels_per_roll j \<noteq> 0"
    show "\<exists>jd. new_job_detail j = Inr jd
        \<and> map roll_number (roll_widgets jd) =
            [1..\<lceil>real_of_int (quantity j) / real_of_int (labels_per_roll j)\<rceil>]
        \<and> (\<forall>r \<in> set (roll_widgets jd).
              labels_goal r = labels_per_roll j \<and> state r = Idle \<and> current_progress r = 0)"
      unfolding new_job_detail_rolls[OF l]
      by (auto simp: new_roll_widget_def comp_def map_idI)
  qed
  have t: "total_rolls_of 250 100 = Inr 3" by (simp add: total_rolls_of_def)
  have u: "[1..3::int] = [1, 2, 3]" by (simp add: upto.simps)
  have n: "new_job_detail (example_job 250 100) =
          Inr \<lparr>the_job = example_job 250 100,
               roll_widgets = [new_roll_widget 1 1 100 (py ''Printer_1''),
                               new_roll_widget 1 2 100 (py ''Printer_1''),
                               new_roll_widget 1 3 100 (py ''Printer_1'')]\<rparr>"
    by (simp add: new_job_detail_def example_job_def t u)
  have scenario: "\<exists>r1 r2 r3 jd1 db1 jd2 db2 r1'.
        new_job_detail (example_job 250 100) =
          Inr \<lparr>the_job = example_job 250 100, roll_widgets = [r1, r2, r3]\<rparr>
      \<and> map roll_number [r1, r2, r3] = [1, 2, 3]
      \<and> map labels_goal [r1, r2, r3] = [100, 100, 100]
      \<and> update_rolls \<lparr>the_job = example_job 250 100,
                        roll_widgets = [fst (start_roll r1 []), r2, r3]\<rparr>
           [(py ''Printer_1'') \<mapsto> \<lparr>pass = 2, fail = 0\<rparr>] (snd (start_roll r1 [])) = Inr (jd1, db1)
      \<and> map current_progress (roll_widgets jd1) = [0, 0, 0]
      \<and> update_rolls jd1 [(py ''Printer_1'') \<mapsto> \<lparr>pass = 102, fail = 4\<rparr>] db1 = Inr (jd2, db2)
      \<and> roll_widgets jd2 = [r1', r2, r3]
      \<and> current_progress r1' = min (102 - 2) 100 \<and> current_progress r1' = 100
      \<and> state r1' = Completed"
    unfolding n
    by (simp add: update_rolls_def counts_dict_def example_job_def roll_eval)
  show ?thesis using general scenario by blast
qed

theorem job_detail_rolls_witness:
  "labels_per_roll (example_job 250 100) \<noteq> 0
   \<and> (\<exists>jd. new_job_detail (example_job 250 100) = Inr jd
        \<and> map roll_number (roll_widgets jd) = [1, 2, 3]
        \<and> length (roll_widgets jd) = 3)"
proof -
  have h: "labels_per_roll (example_job 250 100) \<noteq> 0" by (simp add: example_job_def)
  have q: "[1..\<lceil>real_of_int (quantity (example_job 250 100))
               / real_of_int (labels_per_roll (example_job 250 100))\<rceil>] = [1, 2, 3]"
    by (simp add: example_job_def upto.simps)
  note g = job_detail_rolls[of "example_job 250 100", THEN conjunct1, THEN mp, OF h]
  then obtain jd where jd: "new_job_detail (example_job 250 100) = Inr jd"
    "map roll_number (roll_widgets jd) = [1, 2, 3]"
    unfolding q by auto
  from jd(2) have "length (map roll_number (roll_widgets jd)) = 3" by simp
  then have "length (roll_widgets jd) = 3" by simp
  with h jd show ?thesis by auto
qed

text \<open>
  Claim C6 as stated fails in the goal of the last roll: it is 100, not 50.
\<close>

theorem last_roll_goal_is_labels_per_roll:
  "\<exists>jd. new_job_detail (example_job 250 100) = Inr jd
      \<and> map roll_number (roll_widgets jd) = [1, 2, 3]
      \<and> map labels_goal (roll_widgets jd) = [100, 100, 100]
      \<and> map labels_goal (roll_widgets jd) \<noteq> [100, 100, 50]"
  by (simp add: new_job_detail_def total_rolls_of_def example_job_def upto.simps new_roll_widget_def)

end
